theory Spec2Isabelle
  imports Complex_Main "HOL-Library.Char_ord" "HOL-Library.List_Lexorder" "HOL-Library.Multiset"
begin

section \<open>PhotoGPT: the retrieval engine and the profile store\<close>

text \<open>
  A shallow embedding of \<^verbatim>\<open>src/faiss_utils.py\<close>, \<^verbatim>\<open>src/online_query.py\<close>,
  \<^verbatim>\<open>src/person_manager.py\<close> and of the semantic-search handler of \<^verbatim>\<open>app.py\<close>.

  Conventions.
  \<^item> Floating-point numbers are the reals they denote; NaN and the infinities do not exist.
    The similarity is computed by NumPy on a \<open>float32\<close> scalar, and every operation on it
    rounds its exact result to the nearest binary32 number (\<open>f32\<close> below). The only
    arithmetic on Python floats (binary64) is the average \<open>sum / len\<close> of a photo's
    similarities, which is taken exactly.
  \<^item> An exception is a value \<open>Inl e\<close> of \<open>py_error + 'a\<close>.
  \<^item> The libraries and the operating system (FAISS, the CLIP and MediaPipe models, the file
    system, JSON) are not part of the repository: their answers are the fields of an
    environment record \<open>env\<close>, and every call that writes to the disk, runs a model or
    searches the index is logged, in order, in the list of calls an operation returns next to
    its result.
  \<^item> A Python \<open>dict\<close> whose order matters is an association list with distinct keys, a new
    key being appended at the end.
\<close>

subsection \<open>Errors, data, environment\<close>

datatype py_error =
    ValueError string
  | FileNotFoundError string
  | IndexError
  | TypeError
  | AttributeError
  | KeyError
  | ZeroDivisionError
  | LibraryError string

type_synonym embedding = "real list"

text \<open>A \<^verbatim>\<open>faiss.IndexFlatL2\<close>: the stored rows; \<open>ntotal\<close> is their number.\<close>

type_synonym faiss_index = "embedding list"

text \<open>
  One metadata entry of \<^verbatim>\<open>metadata.json\<close>. \<open>item_id\<close> and \<open>image_path\<close> are written by
  every indexing mode; \<open>mode\<close>, \<open>bbox\<close> and \<open>det_score\<close> are read with \<^verbatim>\<open>.get\<close> and a
  default, so they may be absent.
\<close>

record meta =
  item_id :: int
  image_path :: string
  mode :: "string option"
  bbox :: "int list option"
  det_score :: "real option"

text \<open>One value of the \<open>profiles\<close> dict of \<^verbatim>\<open>PersonManager\<close>.\<close>

record profile =
  profile_embedding :: embedding
  profile_selfie_path :: string

datatype call =
    Makedirs string
  | Write_index faiss_index string
  | Write_profiles string "(string \<times> profile) list"
  | Load_models
  | Encode_text string
  | Detect_faces string
  | Index_search embedding int

record env =
  os_path_exists :: "string \<Rightarrow> bool"
  os_path_dirname :: "string \<Rightarrow> string"
  os_makedirs :: "string \<Rightarrow> py_error option"
  faiss_write_index :: "faiss_index \<Rightarrow> string \<Rightarrow> py_error option"
  faiss_read_index :: "string \<Rightarrow> py_error + faiss_index"
  faiss_search :: "faiss_index \<Rightarrow> embedding \<Rightarrow> int \<Rightarrow> py_error + (real \<times> int) list"
  json_load_metadata :: "string \<Rightarrow> py_error + meta list"
  json_dump_profiles :: "string \<Rightarrow> (string \<times> profile) list \<Rightarrow> py_error option"
  new_face_processor :: "py_error option"
  clip_encode_text :: "string \<Rightarrow> py_error + embedding"
  single_face_embedding :: "string \<Rightarrow> py_error + embedding option"

subsection \<open>NumPy \<open>float32\<close> arithmetic\<close>

text \<open>
  Rounding of a real to binary32, to nearest with ties to even. \<open>binade n a\<close> searches the
  exponent \<open>e\<close> with \<open>2^e \<le> a < 2^(e+1)\<close> in at most \<open>n\<close> halvings or doublings; the
  exponent of a binary32 number is at least \<open>-126\<close> (below it lie the subnormal numbers, on
  the grid of that exponent), and the significand has 24 bits, so the grid of the binade
  \<open>e\<close> is \<open>2^(e-23)\<close>. Overflow to infinity is not modelled.
\<close>

definition round_half_even :: "real \<Rightarrow> int" where
  "round_half_even x =
     (if x - of_int \<lfloor>x\<rfloor> < 1 / 2 then \<lfloor>x\<rfloor>
      else if 1 / 2 < x - of_int \<lfloor>x\<rfloor> then \<lfloor>x\<rfloor> + 1
      else if even \<lfloor>x\<rfloor> then \<lfloor>x\<rfloor> else \<lfloor>x\<rfloor> + 1)"

fun binade :: "nat \<Rightarrow> real \<Rightarrow> int" where
  "binade 0 a = 0"
| "binade (Suc n) a =
     (if 2 \<le> a then binade n (a / 2) + 1
      else if a < 1 then binade n (a * 2) - 1
      else 0)"

definition f32_exponent :: "real \<Rightarrow> int" where
  "f32_exponent a = max (- 126) (binade 300 a)"

definition f32_magnitude :: "real \<Rightarrow> real" where
  "f32_magnitude a =
     of_int (round_half_even (a / 2 powi (f32_exponent a - 23))) * 2 powi (f32_exponent a - 23)"

definition f32 :: "real \<Rightarrow> real" where
  "f32 x = (if x = 0 then 0 else if x < 0 then - f32_magnitude (- x) else f32_magnitude x)"

subsection \<open>\<^verbatim>\<open>FaissIndexManager\<close>\<close>

record index_manager =
  embedding_dim :: nat
  index :: "faiss_index option"
  metadata :: "meta list"

definition new_index_manager :: "nat \<Rightarrow> index_manager" where
  "new_index_manager d = \<lparr>embedding_dim = d, index = None, metadata = []\<rparr>"

text \<open>\<^verbatim>\<open>save_index\<close>: the \<open>None\<close> check comes first, then \<open>makedirs\<close>, then the write.\<close>

definition save_index :: "env \<Rightarrow> index_manager \<Rightarrow> string \<Rightarrow> (py_error + unit) \<times> call list" where
  "save_index e st index_path =
     (case index st of
        None \<Rightarrow> (Inl (ValueError ''No index to save. Create index first.''), [])
      | Some ix \<Rightarrow>
          (let dir = os_path_dirname e index_path in
           case os_makedirs e dir of
             Some err \<Rightarrow> (Inl err, [Makedirs dir])
           | None \<Rightarrow>
               (case faiss_write_index e ix index_path of
                  Some err \<Rightarrow> (Inl err, [Makedirs dir, Write_index ix index_path])
                | None \<Rightarrow> (Inr (), [Makedirs dir, Write_index ix index_path]))))"

text \<open>
  \<^verbatim>\<open>load_index\<close> returns the result and the manager afterwards: \<open>self.index\<close> is assigned
  only once \<^verbatim>\<open>faiss.read_index\<close> has returned.
\<close>

definition load_index :: "env \<Rightarrow> index_manager \<Rightarrow> string \<Rightarrow> (py_error + unit) \<times> index_manager" where
  "load_index e st index_path =
     (if \<not> os_path_exists e index_path
      then (Inl (FileNotFoundError (''Index file not found: '' @ index_path)), st)
      else (case faiss_read_index e index_path of
              Inl err \<Rightarrow> (Inl err, st)
            | Inr ix \<Rightarrow> (Inr (), st\<lparr>index := Some ix\<rparr>)))"

definition load_metadata :: "env \<Rightarrow> index_manager \<Rightarrow> string \<Rightarrow> (py_error + meta list) \<times> index_manager" where
  "load_metadata e st metadata_path =
     (if \<not> os_path_exists e metadata_path
      then (Inl (FileNotFoundError (''Metadata file not found: '' @ metadata_path)), st)
      else (case json_load_metadata e metadata_path of
              Inl err \<Rightarrow> (Inl err, st)
            | Inr md \<Rightarrow> (Inr md, st\<lparr>metadata := md\<rparr>)))"

text \<open>
  \<^verbatim>\<open>search\<close>: the pair of arrays \<open>(distances[0], indices[0])\<close> is the list of pairs that
  \<^verbatim>\<open>zip\<close> makes of them.
\<close>

definition search :: "env \<Rightarrow> index_manager \<Rightarrow> embedding \<Rightarrow> int \<Rightarrow> (py_error + (real \<times> int) list) \<times> call list" where
  "search e st query_embedding k =
     (case index st of
        None \<Rightarrow> (Inl (ValueError ''No index loaded. Load or create index first.''), [])
      | Some ix \<Rightarrow> (faiss_search e ix query_embedding k, [Index_search query_embedding k]))"

record match =
  face_id :: int
  similarity :: real
  distance :: real
  match_metadata :: "meta option"

text \<open>
  \<^verbatim>\<open>self.metadata[idx]\<close> for an integer \<open>idx\<close>: Python counts a negative index from the
  end and raises \<open>IndexError\<close> outside \<open>-len .. len - 1\<close>.
\<close>

definition py_getitem :: "'a list \<Rightarrow> int \<Rightarrow> py_error + 'a" where
  "py_getitem xs i =
     (if 0 \<le> i \<and> i < int (length xs) then Inr (xs ! nat i)
      else if i < 0 \<and> - int (length xs) \<le> i then Inr (xs ! nat (int (length xs) + i))
      else Inl IndexError)"

text \<open>
  The loop of \<^verbatim>\<open>search_with_threshold\<close> over \<open>zip(distances, indices)\<close>. \<open>dist\<close> is a
  \<open>numpy.float32\<close>; under NumPy's promotion rules (version 2) the Python numbers \<open>2\<close> and
  \<open>1\<close> and the Python float \<open>similarity_threshold\<close> take its type, so \<open>dist / 2\<close>,
  \<open>1 - (dist / 2)\<close> and the threshold of the comparison are each rounded to binary32.
  \<open>float(...)\<close> and \<open>int(idx)\<close> change no value.
\<close>

fun collect_matches :: "meta list \<Rightarrow> real \<Rightarrow> (real \<times> int) list \<Rightarrow> py_error + match list" where
  "collect_matches md thr [] = Inr []"
| "collect_matches md thr ((dst, idx) # rest) =
     (if idx = - 1 then collect_matches md thr rest
      else
        (let cosine_similarity = f32 (1 - f32 (dst / 2)) in
         if cosine_similarity \<ge> f32 thr then
           (case (if idx < int (length md) then map_sum id Some (py_getitem md idx) else Inr None) of
              Inl err \<Rightarrow> Inl err
            | Inr m \<Rightarrow>
                (case collect_matches md thr rest of
                   Inl err \<Rightarrow> Inl err
                 | Inr results \<Rightarrow>
                     Inr (\<lparr>face_id = idx, similarity = cosine_similarity,
                           distance = dst, match_metadata = m\<rparr> # results)))
         else collect_matches md thr rest))"

text \<open>
  \<^verbatim>\<open>results.sort(key=lambda x: x['similarity'], reverse=True)\<close>: Python's sort is stable,
  also with \<open>reverse=True\<close>; \<^const>\<open>sort_key\<close> on the negated key is the same permutation.
\<close>

definition sort_by_similarity :: "match list \<Rightarrow> match list" where
  "sort_by_similarity results = sort_key (\<lambda>x. - similarity x) results"

definition search_with_threshold ::
  "env \<Rightarrow> index_manager \<Rightarrow> embedding \<Rightarrow> real \<Rightarrow> int \<Rightarrow> (py_error + match list) \<times> call list" where
  "search_with_threshold e st query_embedding similarity_threshold max_results =
     (case search e st query_embedding max_results of
        (Inl err, calls) \<Rightarrow> (Inl err, calls)
      | (Inr pool, calls) \<Rightarrow>
          (case collect_matches (metadata st) similarity_threshold pool of
             Inl err \<Rightarrow> (Inl err, calls)
           | Inr results \<Rightarrow> (Inr (sort_by_similarity results), calls)))"

subsection \<open>Python dictionaries that keep insertion order\<close>

text \<open>\<^verbatim>\<open>d[k] = v\<close>: an existing key keeps its place, a new key goes to the end.\<close>

fun dict_set :: "('k \<times> 'v) list \<Rightarrow> 'k \<Rightarrow> 'v \<Rightarrow> ('k \<times> 'v) list" where
  "dict_set [] k v = [(k, v)]"
| "dict_set ((k', v') # d) k v = (if k' = k then (k, v) # d else (k', v') # dict_set d k v)"

definition dict_keys :: "('k \<times> 'v) list \<Rightarrow> 'k list" where
  "dict_keys d = map fst d"

definition dict_values :: "('k \<times> 'v) list \<Rightarrow> 'v list" where
  "dict_values d = map snd d"

subsection \<open>\<^verbatim>\<open>PhotoRetriever\<close>\<close>

record face_info =
  face_bbox :: "int list"
  face_similarity :: real
  face_det_score :: real

text \<open>
  One entry of \<open>matched_photos\<close>. The key \<open>similarity\<close> exists in full-image mode only, and
  \<open>num_matches\<close> is added to a face-mode group by the last loop: both are \<open>None\<close> while absent.
  The key \<open>faces\<close> exists in face mode only; in full-image mode the list is empty.
\<close>

record photo_info =
  photo_path :: string
  faces :: "face_info list"
  photo_similarity :: "real option"
  max_similarity :: real
  avg_similarity :: real
  num_matches :: "nat option"

text \<open>
  The messages are f-strings that print floats and counts; a constructor stands for each
  text, with the values it prints. \<open>No_message\<close> is the empty string.
\<close>

datatype message =
    No_message
  | Provide_either
  | Provide_only_one
  | No_face_in_selfie
  | No_confident_matches real
  | Found_photos nat
  | No_photos_for "string option"
  | Found_event_photos nat "string option"

datatype query_info =
    No_query_info
  | Text_query string nat real
  | Face_query string nat real
  | Registered_person "string option" nat real

record query_result =
  success :: bool
  message :: message
  query_info :: query_info
  matches :: "photo_info list"
  total_photos :: nat

definition initial_result :: query_result where
  "initial_result =
     \<lparr>success = False, message = No_message, query_info = No_query_info,
      matches = [], total_photos = 0\<rparr>"

text \<open>
  \<^verbatim>\<open>PhotoRetriever.__init__\<close>: the face processor, then the index, then the metadata. The
  \<open>except FileNotFoundError\<close> clause prints and re-raises, so every error leaves the
  constructor.
\<close>

definition new_photo_retriever :: "env \<Rightarrow> string \<Rightarrow> string \<Rightarrow> (py_error + index_manager) \<times> call list" where
  "new_photo_retriever e index_path metadata_path =
     (case new_face_processor e of
        Some err \<Rightarrow> (Inl err, [Load_models])
      | None \<Rightarrow>
          (case load_index e (new_index_manager 512) index_path of
             (Inl err, st) \<Rightarrow> (Inl err, [Load_models])
           | (Inr u, st) \<Rightarrow>
               (case load_metadata e st metadata_path of
                  (Inl err, st') \<Rightarrow> (Inl err, [Load_models])
                | (Inr md, st') \<Rightarrow> (Inr st', [Load_models]))))"

text \<open>Python truthiness of an optional string: \<open>None\<close> and \<open>''\<close> are false.\<close>

definition truthy :: "string option \<Rightarrow> bool" where
  "truthy s = (case s of None \<Rightarrow> False | Some t \<Rightarrow> t \<noteq> [])"

text \<open>The mode of the loaded index, read from the first metadata record.\<close>

definition index_mode :: "index_manager \<Rightarrow> string" where
  "index_mode st =
     (if length (metadata st) > 0
      then (case mode (hd (metadata st)) of None \<Rightarrow> ''face'' | Some m \<Rightarrow> m)
      else ''face'')"

text \<open>Full-image mode: one photo per match. \<open>match['metadata']\<close> may be \<open>None\<close>.\<close>

fun full_image_photos :: "match list \<Rightarrow> py_error + photo_info list" where
  "full_image_photos [] = Inr []"
| "full_image_photos (m # ms) =
     (case match_metadata m of
        None \<Rightarrow> Inl TypeError
      | Some md \<Rightarrow>
          (case full_image_photos ms of
             Inl err \<Rightarrow> Inl err
           | Inr matched_photos \<Rightarrow>
               Inr (\<lparr>photo_path = image_path md, faces = [],
                     photo_similarity = Some (similarity m),
                     max_similarity = similarity m, avg_similarity = similarity m,
                     num_matches = Some 1\<rparr> # matched_photos)))"

text \<open>
  Face mode, the body of the grouping loop for one match: create the group when the path is
  new, append the face, raise the group's maximum when the match is above it.
\<close>

definition add_match :: "match \<Rightarrow> (string \<times> photo_info) list \<Rightarrow> py_error + (string \<times> photo_info) list" where
  "add_match m photo_groups =
     (case match_metadata m of
        None \<Rightarrow> Inl TypeError
      | Some md \<Rightarrow>
          (let path = image_path md;
               groups1 =
                 (if path \<notin> set (dict_keys photo_groups)
                  then dict_set photo_groups path
                         \<lparr>photo_path = path, faces = [], photo_similarity = None,
                          max_similarity = 0, avg_similarity = 0, num_matches = None\<rparr>
                  else photo_groups);
               info =
                 \<lparr>face_bbox = (case bbox md of None \<Rightarrow> [0, 0, 0, 0] | Some b \<Rightarrow> b),
                  face_similarity = similarity m,
                  face_det_score = (case det_score md of None \<Rightarrow> 1 | Some s \<Rightarrow> s)\<rparr>
           in case map_of groups1 path of
                None \<Rightarrow> Inl KeyError
              | Some g \<Rightarrow>
                  (let g1 = g\<lparr>faces := faces g @ [info]\<rparr>;
                       g2 = (if similarity m > max_similarity g1
                             then g1\<lparr>max_similarity := similarity m\<rparr> else g1)
                   in Inr (dict_set groups1 path g2))))"

fun group_matches :: "match list \<Rightarrow> (string \<times> photo_info) list \<Rightarrow> py_error + (string \<times> photo_info) list" where
  "group_matches [] photo_groups = Inr photo_groups"
| "group_matches (m # ms) photo_groups =
     (case add_match m photo_groups of
        Inl err \<Rightarrow> Inl err
      | Inr groups1 \<Rightarrow> group_matches ms groups1)"

text \<open>The last loop: average and count of each group. \<open>sum / len\<close> raises on an empty list.\<close>

fun finish_photos :: "photo_info list \<Rightarrow> py_error + photo_info list" where
  "finish_photos [] = Inr []"
| "finish_photos (g # gs) =
     (let similarities = map face_similarity (faces g) in
      if length similarities = 0 then Inl ZeroDivisionError
      else
        (case finish_photos gs of
           Inl err \<Rightarrow> Inl err
         | Inr matched_photos \<Rightarrow>
             Inr (g\<lparr>avg_similarity := sum_list similarities / real (length similarities),
                    num_matches := Some (length (faces g))\<rparr> # matched_photos)))"

definition face_mode_photos :: "match list \<Rightarrow> py_error + photo_info list" where
  "face_mode_photos ms =
     (case group_matches ms [] of
        Inl err \<Rightarrow> Inl err
      | Inr photo_groups \<Rightarrow> finish_photos (dict_values photo_groups))"

text \<open>\<^verbatim>\<open>matched_photos.sort(key=lambda x: x['max_similarity'], reverse=True)\<close>, stable.\<close>

definition sort_by_max_similarity :: "photo_info list \<Rightarrow> photo_info list" where
  "sort_by_max_similarity matched_photos = sort_key (\<lambda>x. - max_similarity x) matched_photos"

definition find_photos ::
  "env \<Rightarrow> index_manager \<Rightarrow> string option \<Rightarrow> string option \<Rightarrow> real \<Rightarrow> int
     \<Rightarrow> (py_error + query_result) \<times> call list" where
  "find_photos e st selfie_path text_query similarity_threshold max_results =
     (if \<not> truthy selfie_path \<and> \<not> truthy text_query
      then (Inr (initial_result\<lparr>message := Provide_either\<rparr>), [])
      else if truthy selfie_path \<and> truthy text_query
      then (Inr (initial_result\<lparr>message := Provide_only_one\<rparr>), [])
      else
        (case
           (if truthy text_query then
              (case text_query of
                 None \<Rightarrow> (Inl TypeError, [])
               | Some t \<Rightarrow>
                   (case clip_encode_text e t of
                      Inl err \<Rightarrow> (Inl err, [Encode_text t])
                    | Inr q \<Rightarrow>
                        (Inr (Some (q, Text_query t (length q) similarity_threshold)),
                         [Encode_text t])))
            else
              (case selfie_path of
                 None \<Rightarrow> (Inl TypeError, [])
               | Some p \<Rightarrow>
                   (case single_face_embedding e p of
                      Inl err \<Rightarrow> (Inl err, [Detect_faces p])
                    | Inr None \<Rightarrow> (Inr None, [Detect_faces p])
                    | Inr (Some q) \<Rightarrow>
                        (Inr (Some (q, Face_query p (length q) similarity_threshold)),
                         [Detect_faces p]))))
         of
           (Inl err, calls) \<Rightarrow> (Inl err, calls)
         | (Inr None, calls) \<Rightarrow> (Inr (initial_result\<lparr>message := No_face_in_selfie\<rparr>), calls)
         | (Inr (Some (query_embedding, info)), calls) \<Rightarrow>
             (let result = initial_result\<lparr>query_info := info\<rparr> in
              case search_with_threshold e st query_embedding similarity_threshold max_results of
                (Inl err, calls2) \<Rightarrow> (Inl err, calls @ calls2)
              | (Inr ms, calls2) \<Rightarrow>
                  if length ms = 0
                  then (Inr (result\<lparr>message := No_confident_matches similarity_threshold\<rparr>),
                        calls @ calls2)
                  else
                    (case (if index_mode st = ''full_image''
                           then full_image_photos ms else face_mode_photos ms) of
                       Inl err \<Rightarrow> (Inl err, calls @ calls2)
                     | Inr photos \<Rightarrow>
                         (let matched_photos = sort_by_max_similarity photos in
                          (Inr (result\<lparr>success := True, matches := matched_photos,
                                       total_photos := length matched_photos,
                                       message := Found_photos (length matched_photos)\<rparr>),
                           calls @ calls2))))))"

text \<open>
  \<^verbatim>\<open>find_photos_by_embedding\<close> prints \<open>self.index_manager.index.ntotal\<close> first, which
  raises \<open>AttributeError\<close> on \<open>None\<close>; it always groups by image.
\<close>

definition find_photos_by_embedding ::
  "env \<Rightarrow> index_manager \<Rightarrow> embedding \<Rightarrow> real \<Rightarrow> int \<Rightarrow> string option
     \<Rightarrow> (py_error + query_result) \<times> call list" where
  "find_photos_by_embedding e st query_embedding similarity_threshold max_results person_name =
     (case index st of
        None \<Rightarrow> (Inl AttributeError, [])
      | Some ix \<Rightarrow>
          (let result =
                 initial_result\<lparr>query_info :=
                   Registered_person person_name (length query_embedding) similarity_threshold\<rparr>
           in case search_with_threshold e st query_embedding similarity_threshold max_results of
                (Inl err, calls) \<Rightarrow> (Inl err, calls)
              | (Inr ms, calls) \<Rightarrow>
                  if length ms = 0
                  then (Inr (result\<lparr>message := No_photos_for person_name\<rparr>), calls)
                  else
                    (case face_mode_photos ms of
                       Inl err \<Rightarrow> (Inl err, calls)
                     | Inr photos \<Rightarrow>
                         (let matched_photos = sort_by_max_similarity photos in
                          (Inr (result\<lparr>success := True, matches := matched_photos,
                                       total_photos := length matched_photos,
                                       message := Found_event_photos (length matched_photos) person_name\<rparr>),
                           calls)))))"

subsection \<open>The semantic-search handler of \<^verbatim>\<open>app.py\<close>\<close>

text \<open>
  What the handler does once the search button is pressed with a query: build the retriever
  (any exception is shown and the handler returns), refuse an index whose first metadata
  record is not in \<open>full_image\<close> mode, otherwise call \<^verbatim>\<open>find_photos\<close> with the text
  query and the default \<open>max_results\<close>.
\<close>

datatype ui_outcome =
    Nothing_done
  | Error_loading_models py_error
  | Requires_full_image_mode
  | Search_stored query_result
  | Uncaught py_error

definition semantic_search ::
  "env \<Rightarrow> string \<Rightarrow> string \<Rightarrow> string \<Rightarrow> real \<Rightarrow> ui_outcome \<times> call list" where
  "semantic_search e index_path metadata_path semantic_query similarity_threshold =
     (if semantic_query = [] then (Nothing_done, [])
      else
        (case new_photo_retriever e index_path metadata_path of
           (Inl err, calls) \<Rightarrow> (Error_loading_models err, calls)
         | (Inr retriever, calls) \<Rightarrow>
             if length (metadata retriever) > 0 \<and>
                (case mode (hd (metadata retriever)) of None \<Rightarrow> ''face'' | Some m \<Rightarrow> m)
                  \<noteq> ''full_image''
             then (Requires_full_image_mode, calls)
             else
               (case find_photos e retriever None (Some semantic_query) similarity_threshold 100 of
                  (Inl err, calls2) \<Rightarrow> (Uncaught err, calls @ calls2)
                | (Inr result, calls2) \<Rightarrow> (Search_stored result, calls @ calls2))))"

subsection \<open>\<^verbatim>\<open>PersonManager\<close>\<close>

text \<open>
  \<open>profiles\<close> is the dict \<open>name -> {embedding, selfie_path}\<close>; \<open>face_processor\<close> tells
  whether the lazily built processor exists.
\<close>

record person_manager =
  profiles_path :: string
  profiles :: "(string \<times> profile) list"
  face_processor :: bool

datatype register_message =
    Empty_message
  | Please_enter_a_name
  | Selfie_file_not_found string
  | No_face_detected
  | Successfully_registered string
  | Error_processing_selfie py_error

record register_result =
  registered :: bool
  register_message :: register_message

text \<open>
  \<^verbatim>\<open>str.strip()\<close> and \<^verbatim>\<open>str.lower()\<close> on the ASCII range (a \<^typ>\<open>char\<close> is a byte): the
  whitespace characters are tab, line feed, vertical tab, form feed, carriage return, the
  four separators \<open>0x1C\<close> to \<open>0x1F\<close> and the space.
\<close>

definition is_space :: "char \<Rightarrow> bool" where
  "is_space c = (c \<in> set [CHR 0x09, CHR 0x0A, CHR 0x0B, CHR 0x0C, CHR 0x0D,
                          CHR 0x1C, CHR 0x1D, CHR 0x1E, CHR 0x1F, CHR 0x20])"

definition strip :: "string \<Rightarrow> string" where
  "strip s = rev (dropWhile is_space (rev (dropWhile is_space s)))"

definition lower_char :: "char \<Rightarrow> char" where
  "lower_char c =
     (if CHR ''A'' \<le> c \<and> c \<le> CHR ''Z'' then char_of (of_char c + (32 :: nat)) else c)"

definition lower :: "string \<Rightarrow> string" where
  "lower s = map lower_char s"

definition init_face_processor :: "env \<Rightarrow> person_manager \<Rightarrow> (py_error + unit) \<times> person_manager \<times> call list" where
  "init_face_processor e pm =
     (if \<not> face_processor pm then
        (case new_face_processor e of
           Some err \<Rightarrow> (Inl err, pm, [Load_models])
         | None \<Rightarrow> (Inr (), pm\<lparr>face_processor := True\<rparr>, [Load_models]))
      else (Inr (), pm, []))"

definition save_profiles :: "env \<Rightarrow> person_manager \<Rightarrow> py_error option \<times> call list" where
  "save_profiles e pm =
     (let dir = os_path_dirname e (profiles_path pm) in
      case os_makedirs e dir of
        Some err \<Rightarrow> (Some err, [Makedirs dir])
      | None \<Rightarrow>
          (json_dump_profiles e (profiles_path pm) (profiles pm),
           [Makedirs dir, Write_profiles (profiles_path pm) (profiles pm)]))"

text \<open>
  \<^verbatim>\<open>register_person\<close>. The face processor is built outside the \<open>try\<close>, so its error leaves
  the method; the extraction and \<open>save_profiles\<close> are inside it, and \<open>save_profiles\<close> runs
  after the profile has been stored in memory.
\<close>

definition register_person ::
  "env \<Rightarrow> person_manager \<Rightarrow> string \<Rightarrow> string
     \<Rightarrow> (py_error + register_result) \<times> person_manager \<times> call list" where
  "register_person e pm name0 selfie =
     (let name = strip name0 in
      if name = [] then
        (Inr \<lparr>registered = False, register_message = Please_enter_a_name\<rparr>, pm, [])
      else if \<not> os_path_exists e selfie then
        (Inr \<lparr>registered = False, register_message = Selfie_file_not_found selfie\<rparr>, pm, [])
      else
        (case init_face_processor e pm of
           (Inl err, pm1, calls) \<Rightarrow> (Inl err, pm1, calls)
         | (Inr u, pm1, calls) \<Rightarrow>
             (case single_face_embedding e selfie of
                Inl err \<Rightarrow>
                  (Inr \<lparr>registered = False, register_message = Error_processing_selfie err\<rparr>,
                   pm1, calls @ [Detect_faces selfie])
              | Inr None \<Rightarrow>
                  (Inr \<lparr>registered = False, register_message = No_face_detected\<rparr>,
                   pm1, calls @ [Detect_faces selfie])
              | Inr (Some emb) \<Rightarrow>
                  (let pm2 = pm1\<lparr>profiles :=
                               dict_set (profiles pm1) name
                                 \<lparr>profile_embedding = emb, profile_selfie_path = selfie\<rparr>\<rparr>
                   in case save_profiles e pm2 of
                        (Some err, calls2) \<Rightarrow>
                          (Inr \<lparr>registered = False,
                                register_message = Error_processing_selfie err\<rparr>,
                           pm2, calls @ [Detect_faces selfie] @ calls2)
                      | (None, calls2) \<Rightarrow>
                          (Inr \<lparr>registered = True,
                                register_message = Successfully_registered name\<rparr>,
                           pm2, calls @ [Detect_faces selfie] @ calls2)))))"

text \<open>\<^verbatim>\<open>get_all_names\<close>: \<open>sorted(list(self.profiles.keys()))\<close>.\<close>

definition get_all_names :: "person_manager \<Rightarrow> string list" where
  "get_all_names pm = sort (dict_keys (profiles pm))"

text \<open>\<^verbatim>\<open>get_profile\<close>: the first stored name equal to the argument once both are lowered.\<close>

fun get_profile_in :: "(string \<times> profile) list \<Rightarrow> string \<Rightarrow> (string \<times> profile) option" where
  "get_profile_in [] name = None"
| "get_profile_in ((stored_name, p) # rest) name =
     (if lower stored_name = lower name then Some (stored_name, p)
      else get_profile_in rest name)"

definition get_profile :: "person_manager \<Rightarrow> string \<Rightarrow> (string \<times> profile) option" where
  "get_profile pm name = get_profile_in (profiles pm) name"

subsection \<open>Auxiliary notions for the statements\<close>

text \<open>
  The similarity the loop of \<^verbatim>\<open>search_with_threshold\<close> computes from a distance, and
  the candidates \<open>(distance, ordinal)\<close> it keeps: the ordinal is not the marker \<open>-1\<close> and
  the similarity is at least the threshold, both as binary32 numbers.
\<close>

definition similarity_of :: "real \<Rightarrow> real" where
  "similarity_of d = f32 (1 - f32 (d / 2))"

definition clears :: "real \<Rightarrow> real \<times> int \<Rightarrow> bool" where
  "clears thr c = (snd c \<noteq> - 1 \<and> f32 thr \<le> similarity_of (fst c))"

text \<open>The pair \<open>(distance, ordinal)\<close> a match was made from.\<close>

definition candidate_of :: "match \<Rightarrow> real \<times> int" where
  "candidate_of m = (distance m, face_id m)"

text \<open>
  For the aggregation: the image path of a match, the similarities of the matches of one
  image in the order of the list, and what the loop body does to the group of a match.
\<close>

definition match_path :: "match \<Rightarrow> string option" where
  "match_path m = map_option image_path (match_metadata m)"

definition group_similarities :: "string \<Rightarrow> match list \<Rightarrow> real list" where
  "group_similarities p ms = map similarity (filter (\<lambda>m. match_path m = Some p) ms)"

definition new_group :: "string \<Rightarrow> photo_info" where
  "new_group p =
     \<lparr>photo_path = p, faces = [], photo_similarity = None,
      max_similarity = 0, avg_similarity = 0, num_matches = None\<rparr>"

definition face_of :: "match \<Rightarrow> meta \<Rightarrow> face_info" where
  "face_of m md =
     \<lparr>face_bbox = (case bbox md of None \<Rightarrow> [0, 0, 0, 0] | Some b \<Rightarrow> b),
      face_similarity = similarity m,
      face_det_score = (case det_score md of None \<Rightarrow> 1 | Some s \<Rightarrow> s)\<rparr>"

definition extend_group :: "match \<Rightarrow> meta \<Rightarrow> photo_info \<Rightarrow> photo_info" where
  "extend_group m md g =
     g\<lparr>faces := faces g @ [face_of m md],
       max_similarity := max (max_similarity g) (similarity m)\<rparr>"

definition finish_group :: "photo_info \<Rightarrow> photo_info" where
  "finish_group g =
     g\<lparr>avg_similarity :=
         sum_list (map face_similarity (faces g)) / real (length (faces g)),
       num_matches := Some (length (faces g))\<rparr>"

text \<open>
  The state of the grouping loop after the matches \<open>seen\<close>: one group per image path seen,
  holding the similarities of that image's matches and the running maximum that started
  at \<open>0\<close>.
\<close>

definition grouped :: "match list \<Rightarrow> (string \<times> photo_info) list \<Rightarrow> bool" where
  "grouped seen G =
     (distinct (dict_keys G) \<and>
      list_all (\<lambda>(k, g).
          photo_path g = k \<and>
          group_similarities k seen \<noteq> [] \<and>
          map face_similarity (faces g) = group_similarities k seen \<and>
          max_similarity g = Max (insert 0 (set (group_similarities k seen)))) G \<and>
      list_all (\<lambda>m. match_path m = None \<or> the (match_path m) \<in> set (dict_keys G)) seen)"

subsection \<open>A small installation on which the statements are evaluated\<close>

text \<open>
  \<^verbatim>\<open>os.path.dirname\<close> on POSIX: the path up to its last slash, without trailing slashes
  unless it consists of slashes only.
\<close>

definition posix_dirname :: "string \<Rightarrow> string" where
  "posix_dirname p =
     (let head = rev (dropWhile (\<lambda>c. c \<noteq> CHR ''/'') (rev p)) in
      if head \<noteq> [] \<and> \<not> list_all (\<lambda>c. c = CHR ''/'') head
      then rev (dropWhile (\<lambda>c. c = CHR ''/'') (rev head))
      else head)"

text \<open>
  An exact search as a flat L2 index performs it: the squared Euclidean distance of every
  row to the query, by ascending distance and, at equal distance, by ascending ordinal; the
  first \<open>k\<close> of them, filled up to \<open>k\<close> entries with the ordinal \<open>-1\<close> at the largest binary32
  number. The rows used below have coordinates for which every sum is exact in binary32.
\<close>

definition l2sqr :: "embedding \<Rightarrow> embedding \<Rightarrow> real" where
  "l2sqr x y = sum_list (map (\<lambda>(a, b). (a - b) ^ 2) (zip x y))"

definition flat_l2_search :: "faiss_index \<Rightarrow> embedding \<Rightarrow> int \<Rightarrow> py_error + (real \<times> int) list" where
  "flat_l2_search ix q k =
     (if k \<le> 0 \<or> \<not> list_all (\<lambda>v. length v = length q) ix
      then Inl (LibraryError ''Error in faiss search'')
      else Inr (take (nat k)
                  (sort_key fst (zip (map (l2sqr q) ix) (map int [0..<length ix])) @
                   replicate (nat k - length ix)
                     (340282346638528859811704183484516925440, - 1))))"

text \<open>
  An environment with the index \<open>ix\<close> and the metadata \<open>md\<close> in the default files, two
  selfies, models that load and give every text and every selfie the embedding \<open>(1, 0)\<close>,
  and a disk that can be written.
\<close>

definition demo_env :: "faiss_index \<Rightarrow> meta list \<Rightarrow> env" where
  "demo_env ix md =
     \<lparr>os_path_exists =
        (\<lambda>p. p \<in> set [''data/embeddings/faiss.index'', ''data/embeddings/metadata.json'',
                        ''uploads/ann.jpg'', ''uploads/ann2.jpg'']),
      os_path_dirname = posix_dirname,
      os_makedirs = (\<lambda>d. if d = [] then Some (FileNotFoundError d) else None),
      faiss_write_index = (\<lambda>i p. None),
      faiss_read_index =
        (\<lambda>p. if p = ''data/embeddings/faiss.index'' then Inr ix
             else Inl (LibraryError ''Error in faiss read_index'')),
      faiss_search = flat_l2_search,
      json_load_metadata =
        (\<lambda>p. if p = ''data/embeddings/metadata.json'' then Inr md
             else Inl (LibraryError ''json.load'')),
      json_dump_profiles = (\<lambda>p d. None),
      new_face_processor = None,
      clip_encode_text = (\<lambda>t. Inr [1, 0]),
      single_face_embedding = (\<lambda>p. Inr (Some [1, 0]))\<rparr>"

definition face_meta :: "int \<Rightarrow> string \<Rightarrow> meta" where
  "face_meta i p =
     \<lparr>item_id = i, image_path = p, mode = Some ''face'',
      bbox = Some [0, 0, 10, 10], det_score = Some 1\<rparr>"

definition demo_manager :: "faiss_index \<Rightarrow> meta list \<Rightarrow> index_manager" where
  "demo_manager ix md = \<lparr>embedding_dim = 512, index = Some ix, metadata = md\<rparr>"

definition demo_people :: person_manager where
  "demo_people =
     \<lparr>profiles_path = ''data/embeddings/person_profiles.json'', profiles = [],
      face_processor = False\<rparr>"

section \<open>Properties\<close>

subsection \<open>Dictionaries\<close>

lemma dict_keys_dict_set:
  "dict_keys (dict_set d k v) = (if k \<in> set (dict_keys d) then dict_keys d else dict_keys d @ [k])"
  by (induction d k v rule: dict_set.induct) (auto simp: dict_keys_def)

lemma map_of_dict_set:
  "map_of (dict_set d k v) = (map_of d)(k \<mapsto> v)"
  by (induction d k v rule: dict_set.induct) (auto simp: fun_eq_iff)

lemma distinct_dict_set:
  "distinct (dict_keys d) \<Longrightarrow> distinct (dict_keys (dict_set d k v))"
  by (simp add: dict_keys_dict_set)

lemma dict_set_twice: "dict_set (dict_set d k v) k w = dict_set d k w"
  by (induction d k v rule: dict_set.induct) auto

lemma map_of_None_dict_keys: "map_of d k = None \<longleftrightarrow> k \<notin> set (dict_keys d)"
  by (simp add: dict_keys_def map_of_eq_None_iff)

lemma in_dict_set:
  "distinct (dict_keys d) \<Longrightarrow> (a, b) \<in> set (dict_set d k v) \<longleftrightarrow>
     (a = k \<and> b = v) \<or> (a \<noteq> k \<and> (a, b) \<in> set d)"
  by (induction d k v rule: dict_set.induct) (auto simp: dict_keys_def rev_image_eqI)

subsection \<open>Rounding to binary32\<close>

lemma binade_numeral:
  "binade (numeral k) a =
     (if 2 \<le> a then binade (pred_numeral k) (a / 2) + 1
      else if a < 1 then binade (pred_numeral k) (a * 2) - 1
      else 0)"
  by (simp add: numeral_eq_Suc)



lemma round_half_even_of_int: "round_half_even (of_int k) = k"
  by (simp add: round_half_even_def)

lemma round_half_even_bounds:
  "\<lfloor>x\<rfloor> \<le> round_half_even x" "round_half_even x \<le> \<lfloor>x\<rfloor> + 1"
  by (simp_all add: round_half_even_def)

lemma round_half_even_mono:
  assumes "x \<le> y"
  shows "round_half_even x \<le> round_half_even y"
proof (cases "\<lfloor>x\<rfloor> = \<lfloor>y\<rfloor>")
  case True
  with assms show ?thesis
    by (auto simp: round_half_even_def)
next
  case False
  with assms have "\<lfloor>x\<rfloor> + 1 \<le> \<lfloor>y\<rfloor>"
    using floor_mono [OF assms] by linarith
  with round_half_even_bounds(2) [of x] round_half_even_bounds(1) [of y]
  show ?thesis by linarith
qed

lemma binade_bounds:
  "- int n \<le> binade n a \<and> binade n a \<le> int n"
proof (induction n arbitrary: a)
  case 0
  then show ?case by simp
next
  case (Suc n)
  from Suc [of "a / 2"] Suc [of "a * 2"] show ?case by auto
qed

lemma binade_lower:
  "0 < a \<Longrightarrow> - int n < binade n a \<Longrightarrow> 2 powi (binade n a) \<le> a"
proof (induction n arbitrary: a)
  case 0
  then show ?case by simp
next
  case (Suc n)
  show ?case
  proof (cases "2 \<le> a")
    case True
    have b: "binade (Suc n) a = binade n (a / 2) + 1" using True by simp
    show ?thesis
    proof (cases "- int n < binade n (a / 2)")
      case t: True
      from Suc.IH [of "a / 2"] Suc.prems(1) t have "2 powi (binade n (a / 2)) \<le> a / 2" by simp
      then show ?thesis unfolding b by (simp add: power_int_add)
    next
      case False
      then have "binade n (a / 2) = - int n" using binade_bounds [of n "a / 2"] by linarith
      then have "binade (Suc n) a = 1 - int n" unfolding b by simp
      moreover have "2 powi (1 - int n) \<le> (2::real) powi 1"
        by (rule power_int_increasing) simp_all
      ultimately show ?thesis using True by simp
    qed
  next
    case False
    show ?thesis
    proof (cases "a < 1")
      case True
      have b: "binade (Suc n) a = binade n (a * 2) - 1" using True False by simp
      from Suc.prems(2) have "- int n < binade n (a * 2)" unfolding b by simp
      from Suc.IH [of "a * 2"] Suc.prems(1) this have "2 powi (binade n (a * 2)) \<le> a * 2" by simp
      then show ?thesis unfolding b by (simp add: power_int_diff)
    next
      case f: False
      then show ?thesis using False by simp
    qed
  qed
qed

lemma binade_upper:
  "0 < a \<Longrightarrow> binade n a < int n \<Longrightarrow> a < 2 powi (binade n a + 1)"
proof (induction n arbitrary: a)
  case 0
  then show ?case by simp
next
  case (Suc n)
  show ?case
  proof (cases "2 \<le> a")
    case True
    have b: "binade (Suc n) a = binade n (a / 2) + 1" using True by simp
    from Suc.prems(2) have "binade n (a / 2) < int n" unfolding b by simp
    from Suc.IH [of "a / 2"] Suc.prems(1) this have "a / 2 < 2 powi (binade n (a / 2) + 1)" by simp
    then show ?thesis unfolding b by (simp add: power_int_add)
  next
    case False
    show ?thesis
    proof (cases "a < 1")
      case True
      have b: "binade (Suc n) a = binade n (a * 2) - 1" using True False by simp
      show ?thesis
      proof (cases "binade n (a * 2) < int n")
        case t: True
        from Suc.IH [of "a * 2"] Suc.prems(1) t have "a * 2 < 2 powi (binade n (a * 2) + 1)" by simp
        then show ?thesis unfolding b by (simp add: power_int_add)
      next
        case f: False
        then have "binade n (a * 2) = int n" using binade_bounds [of n "a * 2"] by linarith
        then have "binade (Suc n) a + 1 = int n" unfolding b by simp
        moreover have "(1::real) \<le> 2 ^ n"
          by simp
        ultimately show ?thesis using True by (simp add: less_le_trans)
      qed
    next
      case f: False
      then show ?thesis using False by simp
    qed
  qed
qed


lemma f32_exponent_lower:
  assumes "0 < a" and "- 126 < f32_exponent a"
  shows "2 powi (f32_exponent a) \<le> a"
proof -
  from assms(2) have e: "f32_exponent a = binade 300 a"
    by (simp add: f32_exponent_def max_def split: if_splits)
  with assms(2) have "- int 300 < binade 300 a" by simp
  from binade_lower [OF assms(1) this] show ?thesis by (simp add: e)
qed

lemma f32_exponent_upper:
  assumes "0 < a" and "f32_exponent a < 300"
  shows "a < 2 powi (f32_exponent a + 1)"
proof -
  have le: "binade 300 a \<le> f32_exponent a"
    by (simp add: f32_exponent_def)
  with assms(2) have "binade 300 a < int 300" by simp
  from binade_upper [OF assms(1) this] have "a < 2 powi (binade 300 a + 1)" .
  also have "\<dots> \<le> 2 powi (f32_exponent a + 1)"
    using le by (intro power_int_increasing) simp_all
  finally show ?thesis .
qed

lemma f32_exponent_le: "f32_exponent a \<le> 300"
  using binade_bounds [of 300 a] by (simp add: f32_exponent_def)

lemma f32_exponent_mono:
  assumes "0 < a" and "a \<le> b"
  shows "f32_exponent a \<le> f32_exponent b"
proof (rule ccontr)
  assume "\<not> f32_exponent a \<le> f32_exponent b"
  then have lt: "f32_exponent b < f32_exponent a" by simp
  have "- 126 \<le> f32_exponent b" by (simp add: f32_exponent_def)
  with lt have "- 126 < f32_exponent a" by simp
  from f32_exponent_lower [OF assms(1) this] assms(2)
  have 1: "2 powi (f32_exponent a) \<le> b" by simp
  from lt f32_exponent_le [of a] have "f32_exponent b < 300" by simp
  with assms have "b < 2 powi (f32_exponent b + 1)"
    by (intro f32_exponent_upper) simp_all
  also have "\<dots> \<le> 2 powi (f32_exponent a)"
    using lt by (intro power_int_increasing) simp_all
  finally show False using 1 by simp
qed

lemma binade_top: "(2::real) powi (e + 1) = 2 ^ 24 * 2 powi (e - 23)"
proof -
  have "e + 1 = 24 + (e - 23)" by simp
  then have "(2::real) powi (e + 1) = 2 powi (24 + (e - 23))" by (rule arg_cong)
  also have "\<dots> = 2 powi 24 * 2 powi (e - 23)" by (rule power_int_add) simp
  finally show ?thesis by simp
qed

lemma binade_bottom: "(2::real) powi e = 2 ^ 23 * 2 powi (e - 23)"
proof -
  have "e = 23 + (e - 23)" by simp
  then have "(2::real) powi e = 2 powi (23 + (e - 23))" by (rule arg_cong)
  also have "\<dots> = 2 powi 23 * 2 powi (e - 23)" by (rule power_int_add) simp
  finally show ?thesis by simp
qed

lemma f32_magnitude_nonneg:
  assumes "0 \<le> a"
  shows "0 \<le> f32_magnitude a"
proof -
  have "0 \<le> a / 2 powi (f32_exponent a - 23)"
    using assms by simp
  then have "0 \<le> \<lfloor>a / 2 powi (f32_exponent a - 23)\<rfloor>" by simp
  with round_half_even_bounds(1) [of "a / 2 powi (f32_exponent a - 23)"]
  have "0 \<le> round_half_even (a / 2 powi (f32_exponent a - 23))" by linarith
  then show ?thesis by (simp add: f32_magnitude_def)
qed

lemma f32_magnitude_mono:
  assumes "0 < a" and "a \<le> b"
  shows "f32_magnitude a \<le> f32_magnitude b"
proof (cases "f32_exponent a = f32_exponent b")
  case True
  have "a / 2 powi (f32_exponent b - 23) \<le> b / 2 powi (f32_exponent b - 23)"
    using assms(2) by (simp add: divide_right_mono)
  then have "round_half_even (a / 2 powi (f32_exponent b - 23))
               \<le> round_half_even (b / 2 powi (f32_exponent b - 23))"
    by (rule round_half_even_mono)
  then show ?thesis
    by (simp add: f32_magnitude_def True mult_right_mono)
next
  case False
  with f32_exponent_mono [OF assms] have lt: "f32_exponent a < f32_exponent b" by simp
  let ?ea = "f32_exponent a" and ?eb = "f32_exponent b"
  have b0: "0 < b" using assms by simp
  have qa: "(0::real) < 2 powi (?ea - 23)" and qb: "(0::real) < 2 powi (?eb - 23)"
    by simp_all
  \<comment> \<open>the smaller number rounds to at most the top of its binade\<close>
  from lt f32_exponent_le [of b] have "?ea < 300" by simp
  from f32_exponent_upper [OF assms(1) this] have "a < 2 powi (?ea + 1)" .
  also have "(2::real) powi (?ea + 1) = 2 ^ 24 * 2 powi (?ea - 23)"
    by (rule binade_top)
  finally have "a / 2 powi (?ea - 23) \<le> of_int (2 ^ 24)"
    using qa by (simp add: pos_divide_le_eq)
  then have "round_half_even (a / 2 powi (?ea - 23)) \<le> round_half_even (of_int (2 ^ 24))"
    by (rule round_half_even_mono)
  then have "round_half_even (a / 2 powi (?ea - 23)) \<le> 2 ^ 24"
    by (simp only: round_half_even_of_int)
  then have "of_int (round_half_even (a / 2 powi (?ea - 23))) \<le> (2 ^ 24 :: real)"
    by (metis of_int_le_iff of_int_numeral of_int_power)
  then have "f32_magnitude a \<le> 2 ^ 24 * 2 powi (?ea - 23)"
    using qa by (simp add: f32_magnitude_def)
  also have "(2 ^ 24 :: real) * 2 powi (?ea - 23) = 2 powi (?ea + 1)"
    by (rule binade_top [symmetric])
  also have "\<dots> \<le> 2 powi ?eb"
    using lt by (intro power_int_increasing) simp_all
  finally have 1: "f32_magnitude a \<le> 2 powi ?eb" .
  \<comment> \<open>the larger number rounds to at least the bottom of its binade\<close>
  have "- 126 \<le> ?ea" by (simp add: f32_exponent_def)
  with lt have "- 126 < ?eb" by simp
  from f32_exponent_lower [OF b0 this] have "2 powi ?eb \<le> b" .
  moreover have "(2::real) powi ?eb = 2 ^ 23 * 2 powi (?eb - 23)"
    by (rule binade_bottom)
  ultimately have "of_int (2 ^ 23) \<le> b / 2 powi (?eb - 23)"
    using qb by (simp add: pos_le_divide_eq)
  then have "round_half_even (of_int (2 ^ 23)) \<le> round_half_even (b / 2 powi (?eb - 23))"
    by (rule round_half_even_mono)
  then have "2 ^ 23 \<le> round_half_even (b / 2 powi (?eb - 23))"
    by (simp only: round_half_even_of_int)
  then have "(2 ^ 23 :: real) \<le> of_int (round_half_even (b / 2 powi (?eb - 23)))"
    by (metis of_int_le_iff of_int_numeral of_int_power)
  then have "2 ^ 23 * 2 powi (?eb - 23) \<le> f32_magnitude b"
    using qb by (simp add: f32_magnitude_def)
  moreover have "(2 ^ 23 :: real) * 2 powi (?eb - 23) = 2 powi ?eb"
    by (rule binade_bottom [symmetric])
  ultimately have 2: "2 powi ?eb \<le> f32_magnitude b" by simp
  from 1 2 show ?thesis by simp
qed

lemma f32_mono:
  assumes "x \<le> y"
  shows "f32 x \<le> f32 y"
proof -
  consider "x = y" | "x < 0" "y < 0" "x < y" | "x < 0" "0 \<le> y" | "0 \<le> x" "0 = x" "x < y"
    | "0 < x" "x < y"
    using assms by linarith
  then show ?thesis
  proof cases
    case 1
    then show ?thesis by simp
  next
    case 2
    then have "f32_magnitude (- y) \<le> f32_magnitude (- x)"
      by (intro f32_magnitude_mono) simp_all
    with 2 show ?thesis by (simp add: f32_def)
  next
    case 3
    have "0 \<le> f32_magnitude (- x)" using 3 by (intro f32_magnitude_nonneg) simp
    moreover have "0 \<le> f32_magnitude y" using 3 by (intro f32_magnitude_nonneg) simp
    ultimately show ?thesis using 3 by (simp add: f32_def)
  next
    case 4
    have "0 \<le> f32_magnitude y" using 4 by (intro f32_magnitude_nonneg) simp
    with 4 show ?thesis by (auto simp: f32_def)
  next
    case 5
    then have "f32_magnitude x \<le> f32_magnitude y"
      by (intro f32_magnitude_mono) simp_all
    with 5 show ?thesis by (simp add: f32_def)
  qed
qed

subsection \<open>Loading and saving the index\<close>

text \<open>
  C7. \<^verbatim>\<open>load_index\<close> on a path that does not exist raises \<open>FileNotFoundError\<close> and the
  manager, with whatever index it held, is exactly what it was before the call.
\<close>

theorem load_index_missing_path:
  assumes "\<not> os_path_exists e index_path"
  shows "load_index e st index_path =
           (Inl (FileNotFoundError (''Index file not found: '' @ index_path)), st)"
  using assms by (simp add: load_index_def)

theorem load_index_missing_path_witness:
  "\<not> os_path_exists (demo_env [] []) ''backup/faiss.index'' \<and>
   load_index (demo_env [] []) (demo_manager [[1, 0], [0, 1]] []) ''backup/faiss.index'' =
     (Inl (FileNotFoundError ''Index file not found: backup/faiss.index''), demo_manager [[1, 0], [0, 1]] []) \<and>
   index (demo_manager [[1, 0], [0, 1]] []) = Some [[1, 0], [0, 1]]"
proof -
  have h: "\<not> os_path_exists (demo_env [] []) ''backup/faiss.index''"
    by (simp add: demo_env_def)
  show ?thesis
    using h load_index_missing_path [OF h, of "demo_manager [[1, 0], [0, 1]] []"]
    by (simp add: demo_manager_def)
qed

text \<open>
  C10. With no index created or loaded, \<^verbatim>\<open>save_index\<close> raises \<open>ValueError\<close> and makes no
  call that touches the disk: neither \<open>makedirs\<close> nor \<open>write_index\<close>.
\<close>

theorem save_index_without_index:
  assumes "index st = None"
  shows "save_index e st index_path =
           (Inl (ValueError ''No index to save. Create index first.''), [])"
  using assms by (simp add: save_index_def)

theorem save_index_without_index_witness:
  "index (new_index_manager 512) = None \<and>
   save_index (demo_env [] []) (new_index_manager 512) ''data/faiss.index'' =
     (Inl (ValueError ''No index to save. Create index first.''), [])"
proof -
  have h: "index (new_index_manager 512) = None"
    by (simp add: new_index_manager_def)
  show ?thesis
    using h save_index_without_index [OF h, of "demo_env [] []" "''data/faiss.index''"]
    by simp
qed

subsection \<open>Validation of the query\<close>

text \<open>
  C9. When \<^verbatim>\<open>find_photos\<close> is given both a selfie path and a text query, or neither, it
  returns a result with \<open>success = False\<close> and a message, and it has made no call at all:
  no text encoding, no face detection, no index search.
\<close>

theorem find_photos_validates_first:
  assumes "truthy selfie_path = truthy text_query"
  shows "\<exists>r. find_photos e st selfie_path text_query thr k = (Inr r, []) \<and>
             \<not> success r \<and> matches r = [] \<and>
             message r = (if truthy selfie_path then Provide_only_one else Provide_either)"
  using assms by (simp add: find_photos_def initial_result_def)

theorem find_photos_validates_first_witness:
  "truthy (Some ''uploads/ann.jpg'') = truthy (Some ''two people dancing'') \<and>
   (\<exists>r. find_photos (demo_env [[1, 0]] [face_meta 0 ''a.jpg'']) (demo_manager [[1, 0]] [face_meta 0 ''a.jpg''])
           (Some ''uploads/ann.jpg'') (Some ''two people dancing'') (1 / 2) 100 = (Inr r, []) \<and>
        \<not> success r \<and> matches r = [] \<and> message r = Provide_only_one)"
proof -
  have h: "truthy (Some ''uploads/ann.jpg'') = truthy (Some ''two people dancing'')"
    by (simp add: truthy_def)
  have t: "truthy (Some ''uploads/ann.jpg'')"
    by (simp add: truthy_def)
  show ?thesis
    using h t find_photos_validates_first [OF h, of "demo_env [[1, 0]] [face_meta 0 ''a.jpg'']"
        "demo_manager [[1, 0]] [face_meta 0 ''a.jpg'']" "1 / 2" 100]
    by simp
qed

subsection \<open>The threshold filter\<close>

lemmas f32_eval = f32_def f32_magnitude_def f32_exponent_def binade_numeral round_half_even_def
  power_int_def power_one_over

lemma collect_matches_padding: "collect_matches md t (replicate n (d, - 1)) = Inr []"
  by (induction n) simp_all

lemmas search_eval = search_with_threshold_def search_def demo_env_def demo_manager_def
  flat_l2_search_def l2sqr_def sort_by_similarity_def Let_def py_getitem_def face_meta_def
  upt_rec power2_eq_square collect_matches_padding

lemma collect_matches_candidates:
  "collect_matches md t pool = Inr rs \<Longrightarrow> map candidate_of rs = filter (clears t) pool"
proof (induction pool arbitrary: rs)
  case Nil
  then show ?case by simp
next
  case (Cons c pool)
  obtain d i where c: "c = (d, i)" by (cases c)
  from Cons show ?case
    by (auto simp: c clears_def similarity_of_def candidate_of_def Let_def
        split: if_splits sum.splits)
qed


lemma collect_matches_metadata:
  "collect_matches md t pool = Inr rs \<Longrightarrow> r \<in> set rs \<Longrightarrow>
     match_metadata r =
       (if int (length md) \<le> face_id r then None
        else if 0 \<le> face_id r then Some (md ! nat (face_id r))
        else Some (md ! nat (int (length md) + face_id r)))"
proof (induction pool arbitrary: rs)
  case Nil
  then show ?case by simp
next
  case (Cons c pool)
  obtain d i where c: "c = (d, i)" by (cases c)
  from Cons show ?case
    by (auto simp: c Let_def py_getitem_def split: if_splits sum.splits)
qed

lemma collect_matches_returns:
  "\<forall>c\<in>set pool. clears t c \<longrightarrow> - int (length md) \<le> snd c \<Longrightarrow>
     \<exists>rs. collect_matches md t pool = Inr rs"
proof (induction pool)
  case Nil
  then show ?case by simp
next
  case (Cons c pool)
  obtain d i where c: "c = (d, i)" by (cases c)
  from Cons show ?case
    by (auto simp: c Let_def py_getitem_def clears_def similarity_of_def
        split: if_splits sum.splits)
qed

lemma collect_matches_mono:
  "collect_matches md t1 pool = Inr r1 \<Longrightarrow> t1 \<le> t2 \<Longrightarrow>
     \<exists>r2. collect_matches md t2 pool = Inr r2 \<and> length r2 \<le> length r1"
proof (induction pool arbitrary: r1)
  case Nil
  then show ?case by simp
next
  case (Cons c pool)
  obtain d i where c: "c = (d, i)" by (cases c)
  from Cons.prems(2) have t: "f32 t1 \<le> f32 t2" by (rule f32_mono)
  from Cons t show ?case
    by (fastforce simp: c Let_def split: if_splits sum.splits)
qed

lemma collect_matches_none:
  "\<forall>c\<in>set pool. \<not> clears t c \<Longrightarrow> collect_matches md t pool = Inr []"
proof (induction pool)
  case Nil
  then show ?case by simp
next
  case (Cons c pool)
  obtain d i where c: "c = (d, i)" by (cases c)
  from Cons show ?case
    by (auto simp: c Let_def clears_def similarity_of_def)
qed

lemma search_with_threshold_result:
  "fst (search_with_threshold e st q t k) =
     (case fst (search e st q k) of
        Inl err \<Rightarrow> Inl err
      | Inr pool \<Rightarrow> map_sum id sort_by_similarity (collect_matches (metadata st) t pool))"
  by (cases "search e st q k") (auto simp: search_with_threshold_def split: sum.splits)

lemma search_with_threshold_calls:
  "snd (search_with_threshold e st q t k) = snd (search e st q k)"
  by (cases "search e st q k") (auto simp: search_with_threshold_def split: sum.splits)

lemma search_with_threshold_Inr:
  assumes "fst (search_with_threshold e st q t k) = Inr rs"
  obtains pool rs0 where "fst (search e st q k) = Inr pool"
    and "collect_matches (metadata st) t pool = Inr rs0"
    and "rs = sort_by_similarity rs0"
  using assms unfolding search_with_threshold_result
  by (auto split: sum.splits simp: map_sum_def)

text \<open>
  C6. For a fixed query and candidate pool, raising the threshold never increases the number
  of results: when the search returns at the lower threshold, it returns at the higher one
  too, with at most as many results.
\<close>

theorem threshold_monotone:
  assumes "fst (search_with_threshold e st q t1 k) = Inr r1" and "t1 \<le> t2"
  shows "\<exists>r2. fst (search_with_threshold e st q t2 k) = Inr r2 \<and> length r2 \<le> length r1"
proof -
  from assms(1) obtain pool rs0 where p: "fst (search e st q k) = Inr pool"
    and c: "collect_matches (metadata st) t1 pool = Inr rs0"
    and r: "r1 = sort_by_similarity rs0"
    by (rule search_with_threshold_Inr)
  from collect_matches_mono [OF c assms(2)] obtain rs2
    where c2: "collect_matches (metadata st) t2 pool = Inr rs2" and l: "length rs2 \<le> length rs0"
    by blast
  have "fst (search_with_threshold e st q t2 k) = Inr (sort_by_similarity rs2)"
    by (simp add: search_with_threshold_result p c2)
  moreover have "length (sort_by_similarity rs2) \<le> length r1"
    using l by (simp add: r sort_by_similarity_def)
  ultimately show ?thesis by blast
qed

theorem threshold_monotone_witness:
  "fst (search_with_threshold (demo_env [[- 1, 0], [1 / 2, 1 / 2], [1, 1]] [])
          (demo_manager [[- 1, 0], [1 / 2, 1 / 2], [1, 1]] []) [1, 0] (1 / 4) 3)
     = Inr [\<lparr>face_id = 1, similarity = 3 / 4, distance = 1 / 2, match_metadata = None\<rparr>,
            \<lparr>face_id = 2, similarity = 1 / 2, distance = 1, match_metadata = None\<rparr>] \<and>
   (1 / 4 :: real) \<le> 5 / 8 \<and>
   (\<exists>r2. fst (search_with_threshold (demo_env [[- 1, 0], [1 / 2, 1 / 2], [1, 1]] [])
                 (demo_manager [[- 1, 0], [1 / 2, 1 / 2], [1, 1]] []) [1, 0] (5 / 8) 3)
            = Inr r2 \<and> length r2 \<le> 2)"
proof -
  have h: "fst (search_with_threshold (demo_env [[- 1, 0], [1 / 2, 1 / 2], [1, 1]] [])
          (demo_manager [[- 1, 0], [1 / 2, 1 / 2], [1, 1]] []) [1, 0] (1 / 4) 3)
     = Inr [\<lparr>face_id = 1, similarity = 3 / 4, distance = 1 / 2, match_metadata = None\<rparr>,
            \<lparr>face_id = 2, similarity = 1 / 2, distance = 1, match_metadata = None\<rparr>]"
    by (simp add: search_eval f32_eval)
  have le: "(1 / 4 :: real) \<le> 5 / 8" by simp
  from threshold_monotone [OF h le] show ?thesis using h le by (simp add: numeral_2_eq_2)
qed




subsection \<open>No match\<close>

lemma search_with_threshold_no_match:
  assumes "fst (search e st q k) = Inr pool" and "\<forall>c\<in>set pool. \<not> clears thr c"
  shows "search_with_threshold e st q thr k = (Inr [], snd (search e st q k))"
proof -
  have "collect_matches (metadata st) thr pool = Inr []"
    using assms(2) by (rule collect_matches_none)
  then have "fst (search_with_threshold e st q thr k) = Inr []"
    by (simp add: search_with_threshold_result assms(1) sort_by_similarity_def)
  then show ?thesis
    by (simp add: prod_eq_iff search_with_threshold_calls)
qed

lemma search_Inr_index:
  "fst (search e st q k) = Inr pool \<Longrightarrow> index st \<noteq> None"
  by (auto simp: search_def split: option.splits)

text \<open>
  C8. When the index search returns a pool in which no candidate clears the threshold,
  \<^verbatim>\<open>find_photos_by_embedding\<close> and \<^verbatim>\<open>find_photos\<close> (with a text query that was encoded, or
  with a selfie in which a face was found) return a result, not an exception, with
  \<open>success = False\<close>, the no-match message and an empty list of matches.
\<close>

theorem no_match_is_a_result:
  assumes "fst (search e st q k) = Inr pool" and "\<forall>c\<in>set pool. \<not> clears thr c"
  shows "(\<exists>r calls. find_photos_by_embedding e st q thr k person = (Inr r, calls) \<and>
            \<not> success r \<and> message r = No_photos_for person \<and> matches r = []) \<and>
         (t \<noteq> [] \<and> \<not> truthy selfie_path \<and> clip_encode_text e t = Inr q \<longrightarrow>
            (\<exists>r calls. find_photos e st selfie_path (Some t) thr k = (Inr r, calls) \<and>
               \<not> success r \<and> message r = No_confident_matches thr \<and> matches r = [])) \<and>
         (p \<noteq> [] \<and> \<not> truthy text_query \<and> single_face_embedding e p = Inr (Some q) \<longrightarrow>
            (\<exists>r calls. find_photos e st (Some p) text_query thr k = (Inr r, calls) \<and>
               \<not> success r \<and> message r = No_confident_matches thr \<and> matches r = []))"
proof -
  note nm = search_with_threshold_no_match [OF assms]
  from assms(1) obtain ix where ix: "index st = Some ix"
    using search_Inr_index by blast
  have 1: "\<exists>r calls. find_photos_by_embedding e st q thr k person = (Inr r, calls) \<and>
            \<not> success r \<and> message r = No_photos_for person \<and> matches r = []"
    by (simp add: find_photos_by_embedding_def ix nm initial_result_def)
  have 2: "\<exists>r calls. find_photos e st selfie_path (Some t) thr k = (Inr r, calls) \<and>
               \<not> success r \<and> message r = No_confident_matches thr \<and> matches r = []"
    if "t \<noteq> []" "\<not> truthy selfie_path" "clip_encode_text e t = Inr q"
    using that by (simp add: find_photos_def truthy_def nm initial_result_def)
  have 3: "\<exists>r calls. find_photos e st (Some p) text_query thr k = (Inr r, calls) \<and>
               \<not> success r \<and> message r = No_confident_matches thr \<and> matches r = []"
    if "p \<noteq> []" "\<not> truthy text_query" "single_face_embedding e p = Inr (Some q)"
    using that by (simp add: find_photos_def truthy_def nm initial_result_def)
  from 1 2 3 show ?thesis by blast
qed

theorem no_match_is_a_result_witness:
  "fst (search (demo_env [[- (1 / 2), 1 / 2]] [face_meta 0 ''a.jpg''])
         (demo_manager [[- (1 / 2), 1 / 2]] [face_meta 0 ''a.jpg'']) [1, 0] 2)
     = Inr [(5 / 2, 0), (340282346638528859811704183484516925440, - 1)] \<and>
   \<not> clears (1 / 2) (5 / 2, 0) \<and>
   \<not> clears (1 / 2) (340282346638528859811704183484516925440, - 1) \<and>
   (\<exists>r calls. find_photos_by_embedding (demo_env [[- (1 / 2), 1 / 2]] [face_meta 0 ''a.jpg''])
        (demo_manager [[- (1 / 2), 1 / 2]] [face_meta 0 ''a.jpg'']) [1, 0] (1 / 2) 2 (Some ''Ann'')
          = (Inr r, calls) \<and>
      \<not> success r \<and> message r = No_photos_for (Some ''Ann'') \<and> matches r = []) \<and>
   (\<exists>r calls. find_photos (demo_env [[- (1 / 2), 1 / 2]] [face_meta 0 ''a.jpg''])
        (demo_manager [[- (1 / 2), 1 / 2]] [face_meta 0 ''a.jpg'']) None (Some ''people dancing'')
          (1 / 2) 2 = (Inr r, calls) \<and>
      \<not> success r \<and> message r = No_confident_matches (1 / 2) \<and> matches r = []) \<and>
   (\<exists>r calls. find_photos (demo_env [[- (1 / 2), 1 / 2]] [face_meta 0 ''a.jpg''])
        (demo_manager [[- (1 / 2), 1 / 2]] [face_meta 0 ''a.jpg'']) (Some ''uploads/ann.jpg'') None
          (1 / 2) 2 = (Inr r, calls) \<and>
      \<not> success r \<and> message r = No_confident_matches (1 / 2) \<and> matches r = [])"
proof -
  let ?e = "demo_env [[- (1 / 2), 1 / 2]] [face_meta 0 ''a.jpg'']"
  let ?st = "demo_manager [[- (1 / 2), 1 / 2]] [face_meta 0 ''a.jpg'']"
  have h1: "fst (search ?e ?st [1, 0] 2)
      = Inr [(5 / 2, 0), (340282346638528859811704183484516925440, - 1)]"
    by (simp add: search_eval)
  have c1: "\<not> clears (1 / 2) (5 / 2, 0)"
    by (simp add: clears_def similarity_of_def f32_eval)
  have c2: "\<not> clears (1 / 2) (340282346638528859811704183484516925440, - 1)"
    by (simp add: clears_def)
  have h2: "\<forall>c\<in>set [(5 / 2, 0), (340282346638528859811704183484516925440, - 1)].
              \<not> clears (1 / 2) c"
    using c1 c2 by simp
  have t: "''people dancing'' \<noteq> [] \<and> \<not> truthy None \<and>
           clip_encode_text ?e ''people dancing'' = Inr [1, 0]"
    by (simp add: truthy_def demo_env_def)
  have p: "''uploads/ann.jpg'' \<noteq> [] \<and> \<not> truthy None \<and>
           single_face_embedding ?e ''uploads/ann.jpg'' = Inr (Some [1, 0])"
    by (simp add: truthy_def demo_env_def)
  from no_match_is_a_result [OF h1 h2, of "Some ''Ann''" "''people dancing''" None
      "''uploads/ann.jpg''" None]
  show ?thesis using h1 c1 c2 t p by blast
qed

subsection \<open>Vector count and metadata count\<close>

lemma new_photo_retriever_loads:
  assumes "new_face_processor e = None"
    and "os_path_exists e index_path" and "faiss_read_index e index_path = Inr ix"
    and "os_path_exists e metadata_path" and "json_load_metadata e metadata_path = Inr md"
  shows "new_photo_retriever e index_path metadata_path =
           (Inr \<lparr>embedding_dim = 512, index = Some ix, metadata = md\<rparr>, [Load_models])"
  using assms
  by (simp add: new_photo_retriever_def load_index_def load_metadata_def new_index_manager_def)

text \<open>
  C4, as the code has it. The vector count is never compared with the metadata count. The
  retriever is constructed whenever the models load and both files can be read, whatever
  the two counts; a search then returns exactly the candidates that clear the threshold,
  each as often as the pool holds it, and a result whose ordinal is at or beyond the
  metadata count carries the metadata \<open>None\<close>.
\<close>

theorem counts_are_not_compared:
  assumes "new_face_processor e = None"
    and "os_path_exists e index_path" and "faiss_read_index e index_path = Inr ix"
    and "os_path_exists e metadata_path" and "json_load_metadata e metadata_path = Inr md"
    and "faiss_search e ix q k = Inr pool"
    and "fst (search_with_threshold e \<lparr>embedding_dim = 512, index = Some ix, metadata = md\<rparr> q thr k) = Inr rs"
  shows "new_photo_retriever e index_path metadata_path =
           (Inr \<lparr>embedding_dim = 512, index = Some ix, metadata = md\<rparr>, [Load_models]) \<and>
         mset (map candidate_of rs) = mset (filter (clears thr) pool) \<and>
         (\<forall>r\<in>set rs. int (length md) \<le> face_id r \<longrightarrow> match_metadata r = None)"
proof -
  let ?st = "\<lparr>embedding_dim = 512, index = Some ix, metadata = md\<rparr>"
  have s: "fst (search e ?st q k) = Inr pool"
    by (simp add: search_def assms(6))
  from assms(7) s obtain rs0 where c: "collect_matches md thr pool = Inr rs0"
    and r: "rs = sort_by_similarity rs0"
    by (auto elim!: search_with_threshold_Inr)
  have "mset rs = mset rs0"
    by (simp add: r sort_by_similarity_def)
  then have "mset (map candidate_of rs) = mset (map candidate_of rs0)"
    by (metis mset_map)
  then have 1: "mset (map candidate_of rs) = mset (filter (clears thr) pool)"
    by (simp only: collect_matches_candidates [OF c])
  have 2: "\<forall>r\<in>set rs. int (length md) \<le> face_id r \<longrightarrow> match_metadata r = None"
    using collect_matches_metadata [OF c] by (simp add: r sort_by_similarity_def)
  from new_photo_retriever_loads [OF assms(1-5)] 1 2 show ?thesis by blast
qed

theorem counts_are_not_compared_witness:
  "new_photo_retriever (demo_env [[- 1, 0], [1 / 2, 1 / 2]] [face_meta 0 ''a.jpg''])
       ''data/embeddings/faiss.index'' ''data/embeddings/metadata.json'' =
     (Inr \<lparr>embedding_dim = 512, index = Some [[- 1, 0], [1 / 2, 1 / 2]],
           metadata = [face_meta 0 ''a.jpg'']\<rparr>,
      [Load_models]) \<and>
   faiss_search (demo_env [[- 1, 0], [1 / 2, 1 / 2]] [face_meta 0 ''a.jpg''])
       [[- 1, 0], [1 / 2, 1 / 2]] [1, 0] 2 = Inr [(1 / 2, 1), (4, 0)] \<and>
   fst (search_with_threshold (demo_env [[- 1, 0], [1 / 2, 1 / 2]] [face_meta 0 ''a.jpg''])
          \<lparr>embedding_dim = 512, index = Some [[- 1, 0], [1 / 2, 1 / 2]],
           metadata = [face_meta 0 ''a.jpg'']\<rparr> [1, 0] (1 / 2) 2)
     = Inr [\<lparr>face_id = 1, similarity = 3 / 4, distance = 1 / 2, match_metadata = None\<rparr>] \<and>
   mset (map candidate_of
           [\<lparr>face_id = 1, similarity = 3 / 4, distance = 1 / 2, match_metadata = None\<rparr>])
     = mset (filter (clears (1 / 2)) [(1 / 2, 1), (4, 0)])"
proof -
  let ?ix = "[[- 1, 0], [1 / 2, 1 / 2]] :: faiss_index"
  let ?e = "demo_env ?ix [face_meta 0 ''a.jpg'']"
  let ?st = "\<lparr>embedding_dim = 512, index = Some ?ix, metadata = [face_meta 0 ''a.jpg'']\<rparr>"
  have a1: "new_face_processor ?e = None"
    and a2: "os_path_exists ?e ''data/embeddings/faiss.index''"
    and a3: "faiss_read_index ?e ''data/embeddings/faiss.index'' = Inr ?ix"
    and a4: "os_path_exists ?e ''data/embeddings/metadata.json''"
    and a5: "json_load_metadata ?e ''data/embeddings/metadata.json'' = Inr [face_meta 0 ''a.jpg'']"
    by (simp_all add: demo_env_def)
  have a6: "faiss_search ?e ?ix [1, 0] 2 = Inr [(1 / 2, 1), (4, 0)]"
    by (simp add: search_eval)
  have a7: "fst (search_with_threshold ?e ?st [1, 0] (1 / 2) 2)
     = Inr [\<lparr>face_id = 1, similarity = 3 / 4, distance = 1 / 2, match_metadata = None\<rparr>]"
    by (simp add: search_eval f32_eval)
  note t = counts_are_not_compared [OF a1 a2 a3 a4 a5 a6 a7]
  from t have n: "new_photo_retriever ?e ''data/embeddings/faiss.index''
       ''data/embeddings/metadata.json'' = (Inr ?st, [Load_models])"
    by (rule conjunct1)
  from t have m: "mset (map candidate_of
           [\<lparr>face_id = 1, similarity = 3 / 4, distance = 1 / 2, match_metadata = None\<rparr>])
     = mset (filter (clears (1 / 2)) [(1 / 2, 1), (4, 0)])"
    by (rule conjunct1 [OF conjunct2])
  from n a6 a7 m show ?thesis by (intro conjI)
qed

text \<open>
  C4 as stated fails: with two vectors and three metadata records the retriever is
  constructed without an error and a query succeeds, the third record being ignored.
\<close>

theorem count_mismatch_counterexample:
  "length [[- 1, 0], [1 / 2, 1 / 2 :: real]] \<noteq>
     length [face_meta 0 ''a.jpg'', face_meta 1 ''a.jpg'', face_meta 2 ''b.jpg''] \<and>
   new_photo_retriever
       (demo_env [[- 1, 0], [1 / 2, 1 / 2]]
          [face_meta 0 ''a.jpg'', face_meta 1 ''a.jpg'', face_meta 2 ''b.jpg''])
       ''data/embeddings/faiss.index'' ''data/embeddings/metadata.json'' =
     (Inr (demo_manager [[- 1, 0], [1 / 2, 1 / 2]]
             [face_meta 0 ''a.jpg'', face_meta 1 ''a.jpg'', face_meta 2 ''b.jpg'']),
      [Load_models]) \<and>
   find_photos_by_embedding
       (demo_env [[- 1, 0], [1 / 2, 1 / 2]]
          [face_meta 0 ''a.jpg'', face_meta 1 ''a.jpg'', face_meta 2 ''b.jpg''])
       (demo_manager [[- 1, 0], [1 / 2, 1 / 2]]
          [face_meta 0 ''a.jpg'', face_meta 1 ''a.jpg'', face_meta 2 ''b.jpg''])
       [1, 0] (1 / 2) 2 None =
     (Inr \<lparr>success = True, message = Found_event_photos 1 None,
           query_info = Registered_person None 2 (1 / 2),
           matches = [\<lparr>photo_path = ''a.jpg'',
                       faces = [\<lparr>face_bbox = [0, 0, 10, 10], face_similarity = 3 / 4,
                                 face_det_score = 1\<rparr>],
                       photo_similarity = None, max_similarity = 3 / 4, avg_similarity = 3 / 4,
                       num_matches = Some 1\<rparr>],
           total_photos = 1\<rparr>,
      [Index_search [1, 0] 2])"
  by (simp add: new_photo_retriever_def load_index_def load_metadata_def new_index_manager_def
      find_photos_by_embedding_def search_eval f32_eval face_mode_photos_def add_match_def
      dict_keys_def dict_values_def sort_by_max_similarity_def initial_result_def)

subsection \<open>Text queries and the mode of the index\<close>

text \<open>
  C2, as the code has it. The mode is checked by the semantic-search handler of the
  application, not by \<^verbatim>\<open>find_photos\<close>: when the retriever loads and the first metadata
  record is not in \<open>full_image\<close> mode, the handler reports that this mode is required and
  returns having made no call but the loading of the models: no text is encoded and the
  index is not searched.
\<close>

theorem semantic_search_refuses_face_index:
  assumes "semantic_query \<noteq> []"
    and "new_photo_retriever e index_path metadata_path = (Inr st, calls)"
    and "metadata st \<noteq> []"
    and "mode (hd (metadata st)) \<noteq> Some ''full_image''"
  shows "semantic_search e index_path metadata_path semantic_query thr =
           (Requires_full_image_mode, calls) \<and>
         calls = [Load_models] \<and> index_mode st \<noteq> ''full_image''"
proof -
  have m: "(case mode (hd (metadata st)) of None \<Rightarrow> ''face'' | Some m \<Rightarrow> m) \<noteq> ''full_image''"
    using assms(4) by (cases "mode (hd (metadata st))") simp_all
  have 1: "semantic_search e index_path metadata_path semantic_query thr =
           (Requires_full_image_mode, calls)"
    using assms(1-3) m by (simp add: semantic_search_def)
  have 2: "calls = [Load_models]"
    using assms(2)
    by (auto simp: new_photo_retriever_def split: option.splits prod.splits sum.splits)
  have 3: "index_mode st \<noteq> ''full_image''"
    using assms(3) m by (simp add: index_mode_def)
  from 1 2 3 show ?thesis by blast
qed

theorem semantic_search_refuses_face_index_witness:
  "''people dancing'' \<noteq> [] \<and>
   new_photo_retriever (demo_env [[1 / 2, 1 / 2]] [face_meta 0 ''a.jpg''])
       ''data/embeddings/faiss.index'' ''data/embeddings/metadata.json'' =
     (Inr (demo_manager [[1 / 2, 1 / 2]] [face_meta 0 ''a.jpg'']), [Load_models]) \<and>
   metadata (demo_manager [[1 / 2, 1 / 2]] [face_meta 0 ''a.jpg'']) \<noteq> [] \<and>
   mode (hd (metadata (demo_manager [[1 / 2, 1 / 2]] [face_meta 0 ''a.jpg'']))) \<noteq> Some ''full_image'' \<and>
   semantic_search (demo_env [[1 / 2, 1 / 2]] [face_meta 0 ''a.jpg''])
       ''data/embeddings/faiss.index'' ''data/embeddings/metadata.json''
       ''people dancing'' (1 / 2) = (Requires_full_image_mode, [Load_models])"
proof -
  let ?e = "demo_env [[1 / 2, 1 / 2]] [face_meta 0 ''a.jpg'']"
  let ?st = "demo_manager [[1 / 2, 1 / 2]] [face_meta 0 ''a.jpg'']"
  have a1: "''people dancing'' \<noteq> []" by simp
  have a2: "new_photo_retriever ?e ''data/embeddings/faiss.index''
       ''data/embeddings/metadata.json'' = (Inr ?st, [Load_models])"
    by (simp add: new_photo_retriever_def load_index_def load_metadata_def new_index_manager_def
        demo_env_def demo_manager_def)
  have a3: "metadata ?st \<noteq> []"
    by (simp add: demo_manager_def)
  have a4: "mode (hd (metadata ?st)) \<noteq> Some ''full_image''"
    by (simp add: demo_manager_def face_meta_def)
  from semantic_search_refuses_face_index [OF a1 a2 a3 a4, of "1 / 2"]
  show ?thesis using a1 a2 a3 a4 by simp
qed

text \<open>
  C2 as stated fails: \<^verbatim>\<open>find_photos\<close> with a text query on a face-mode index encodes the
  text, searches the index, groups the faces by image and reports success.
\<close>

theorem find_photos_text_on_face_index_counterexample:
  "index_mode (demo_manager [[3 / 4, 1 / 4], [1 / 2, 1 / 2]]
                 [face_meta 0 ''a.jpg'', face_meta 1 ''a.jpg'']) = ''face'' \<and>
   find_photos (demo_env [[3 / 4, 1 / 4], [1 / 2, 1 / 2]]
                  [face_meta 0 ''a.jpg'', face_meta 1 ''a.jpg''])
       (demo_manager [[3 / 4, 1 / 4], [1 / 2, 1 / 2]]
                  [face_meta 0 ''a.jpg'', face_meta 1 ''a.jpg''])
       None (Some ''people dancing'') (1 / 2) 3 =
     (Inr \<lparr>success = True, message = Found_photos 1,
           query_info = Text_query ''people dancing'' 2 (1 / 2),
           matches = [\<lparr>photo_path = ''a.jpg'',
                       faces = [\<lparr>face_bbox = [0, 0, 10, 10], face_similarity = 15 / 16,
                                 face_det_score = 1\<rparr>,
                                \<lparr>face_bbox = [0, 0, 10, 10], face_similarity = 3 / 4,
                                 face_det_score = 1\<rparr>],
                       photo_similarity = None, max_similarity = 15 / 16,
                       avg_similarity = 27 / 32, num_matches = Some 2\<rparr>],
           total_photos = 1\<rparr>,
      [Encode_text ''people dancing'', Index_search [1, 0] 3])"
  by (simp add: find_photos_def truthy_def index_mode_def search_eval f32_eval
      face_mode_photos_def add_match_def dict_keys_def dict_values_def sort_by_max_similarity_def
      initial_result_def)

subsection \<open>Aggregation per photo\<close>

text \<open>
  What the face-mode aggregation computes, when every match has its metadata: one photo per
  image path, with the similarities of that image's matches, their count, their arithmetic
  mean, and as \<open>max_similarity\<close> the maximum of \<open>0\<close> and the members' similarities.
\<close>

lemma add_match_Some:
  assumes "match_metadata m = Some md"
  shows "add_match m G =
           Inr (dict_set G (image_path md)
                  (extend_group m md
                     (case map_of G (image_path md) of
                        None \<Rightarrow> new_group (image_path md) | Some g \<Rightarrow> g)))"
proof (cases "map_of G (image_path md)")
  case None
  then have "image_path md \<notin> set (dict_keys G)"
    by (simp add: map_of_None_dict_keys)
  then show ?thesis
    using None assms
    by (simp add: add_match_def Let_def map_of_dict_set dict_set_twice extend_group_def
        new_group_def face_of_def max_def)
next
  case (Some g)
  then have "image_path md \<in> set (dict_keys G)"
    using map_of_None_dict_keys [of G "image_path md"] by auto
  then show ?thesis
    using Some assms
    by (simp add: add_match_def Let_def extend_group_def face_of_def max_def)
qed


lemma group_similarities_snoc:
  "group_similarities k (seen @ [m]) =
     group_similarities k seen @ (if match_path m = Some k then [similarity m] else [])"
  by (simp add: group_similarities_def)

lemma Max_insert0_snoc:
  "Max (insert (0::real) (insert s (set xs))) = max (Max (insert 0 (set xs))) s"
proof -
  have "insert 0 (insert s (set xs)) = insert s (insert 0 (set xs))" by auto
  then show ?thesis by (simp add: max.commute)
qed

lemma grouped_Nil: "grouped [] []"
  by (simp add: grouped_def dict_keys_def)

lemma grouped_step:
  assumes "grouped seen G" and "match_metadata m = Some md"
  shows "grouped (seen @ [m])
           (dict_set G (image_path md)
              (extend_group m md
                 (case map_of G (image_path md) of
                    None \<Rightarrow> new_group (image_path md) | Some g \<Rightarrow> g)))"
    (is "grouped _ (dict_set G ?p ?g)")
proof -
  have d: "distinct (dict_keys G)" using assms(1) by (simp add: grouped_def)
  have inG: "photo_path g = k \<and> group_similarities k seen \<noteq> [] \<and>
            map face_similarity (faces g) = group_similarities k seen \<and>
            max_similarity g = Max (insert 0 (set (group_similarities k seen)))"
    if "(k, g) \<in> set G" for k g
    using assms(1) that by (auto simp: grouped_def list_all_iff)
  have seenG: "match_path x = None \<or> the (match_path x) \<in> set (dict_keys G)"
    if "x \<in> set seen" for x
    using assms(1) that by (auto simp: grouped_def list_all_iff)
  have mp: "match_path m = Some ?p"
    by (simp add: match_path_def assms(2))
  have new: "group_similarities ?p seen = []" if "map_of G ?p = None"
  proof -
    from that have "?p \<notin> set (dict_keys G)" by (simp add: map_of_None_dict_keys)
    then have "\<forall>x\<in>set seen. match_path x \<noteq> Some ?p"
      using seenG by force
    then show ?thesis by (simp add: group_similarities_def filter_empty_conv)
  qed
  have g: "photo_path ?g = ?p \<and> group_similarities ?p (seen @ [m]) \<noteq> [] \<and>
           map face_similarity (faces ?g) = group_similarities ?p (seen @ [m]) \<and>
           max_similarity ?g = Max (insert 0 (set (group_similarities ?p (seen @ [m]))))"
  proof (cases "map_of G ?p")
    case None
    with new show ?thesis
      by (simp add: group_similarities_snoc mp extend_group_def new_group_def face_of_def)
  next
    case (Some g0)
    then have "(?p, g0) \<in> set G" by (rule map_of_SomeD)
    from inG [OF this] Some show ?thesis
      by (simp add: group_similarities_snoc mp extend_group_def face_of_def Max_insert0_snoc
          del: Max_insert)
  qed
  have 1: "distinct (dict_keys (dict_set G ?p ?g))"
    using d by (rule distinct_dict_set)
  have 2: "list_all (\<lambda>(k, g).
          photo_path g = k \<and>
          group_similarities k (seen @ [m]) \<noteq> [] \<and>
          map face_similarity (faces g) = group_similarities k (seen @ [m]) \<and>
          max_similarity g = Max (insert 0 (set (group_similarities k (seen @ [m])))))
        (dict_set G ?p ?g)"
    unfolding list_all_iff
  proof (rule ballI, clarify)
    fix k h assume "(k, h) \<in> set (dict_set G ?p ?g)"
    then consider "k = ?p" "h = ?g" | "k \<noteq> ?p" "(k, h) \<in> set G"
      using in_dict_set [OF d] by blast
    then show "photo_path h = k \<and>
          group_similarities k (seen @ [m]) \<noteq> [] \<and>
          map face_similarity (faces h) = group_similarities k (seen @ [m]) \<and>
          max_similarity h = Max (insert 0 (set (group_similarities k (seen @ [m]))))"
    proof cases
      case 1
      with g show ?thesis by simp
    next
      case 2
      with inG [OF 2(2)] show ?thesis
        by (simp add: group_similarities_snoc mp)
    qed
  qed
  have 3: "list_all (\<lambda>x. match_path x = None \<or> the (match_path x) \<in> set (dict_keys (dict_set G ?p ?g)))
             (seen @ [m])"
    unfolding list_all_iff
  proof
    fix x assume "x \<in> set (seen @ [m])"
    then consider "x \<in> set seen" | "x = m" by auto
    then show "match_path x = None \<or> the (match_path x) \<in> set (dict_keys (dict_set G ?p ?g))"
    proof cases
      case 1
      from seenG [OF this] show ?thesis by (auto simp: dict_keys_dict_set)
    next
      case 2
      then show ?thesis by (simp add: mp dict_keys_dict_set)
    qed
  qed
  from 1 2 3 show ?thesis by (simp add: grouped_def)
qed

lemma group_matches_grouped:
  assumes "grouped seen G" and "\<forall>m\<in>set ms. match_metadata m \<noteq> None"
  shows "\<exists>G'. group_matches ms G = Inr G' \<and> grouped (seen @ ms) G'"
  using assms
proof (induction ms arbitrary: seen G)
  case Nil
  then show ?case by simp
next
  case (Cons m ms)
  then obtain md where md: "match_metadata m = Some md" by auto
  let ?G1 = "dict_set G (image_path md)
              (extend_group m md
                 (case map_of G (image_path md) of
                    None \<Rightarrow> new_group (image_path md) | Some g \<Rightarrow> g))"
  have a: "add_match m G = Inr ?G1" using md by (rule add_match_Some)
  have "grouped (seen @ [m]) ?G1" using Cons.prems(1) md by (rule grouped_step)
  from Cons.IH [OF this] Cons.prems(2)
  obtain G' where "group_matches ms ?G1 = Inr G'" and "grouped ((seen @ [m]) @ ms) G'"
    by auto
  then show ?case by (simp add: a)
qed

lemma finish_photos_nonempty:
  "\<forall>g\<in>set gs. faces g \<noteq> [] \<Longrightarrow> finish_photos gs = Inr (map finish_group gs)"
  by (induction gs) (simp_all add: Let_def finish_group_def)


lemma face_mode_photos_groups:
  assumes "\<forall>m\<in>set ms. match_metadata m \<noteq> None"
  shows "\<exists>ps. face_mode_photos ms = Inr ps \<and> distinct (map photo_path ps) \<and>
           list_all (\<lambda>g.
              group_similarities (photo_path g) ms \<noteq> [] \<and>
              map face_similarity (faces g) = group_similarities (photo_path g) ms \<and>
              num_matches g = Some (length (group_similarities (photo_path g) ms)) \<and>
              avg_similarity g =
                sum_list (group_similarities (photo_path g) ms) /
                  real (length (group_similarities (photo_path g) ms)) \<and>
              max_similarity g = Max (insert 0 (set (group_similarities (photo_path g) ms)))) ps"
proof -
  from group_matches_grouped [OF grouped_Nil assms]
  obtain G where G: "group_matches ms [] = Inr G" and gr: "grouped ms G"
    by auto
  have inG: "photo_path g = k \<and> group_similarities k ms \<noteq> [] \<and>
            map face_similarity (faces g) = group_similarities k ms \<and>
            max_similarity g = Max (insert 0 (set (group_similarities k ms)))"
    if "(k, g) \<in> set G" for k g
    using gr that by (auto simp: grouped_def list_all_iff)
  have ne: "\<forall>g\<in>set (dict_values G). faces g \<noteq> []"
  proof
    fix g assume "g \<in> set (dict_values G)"
    then obtain k where "(k, g) \<in> set G" by (auto simp: dict_values_def)
    from inG [OF this] show "faces g \<noteq> []" by auto
  qed
  have fm: "face_mode_photos ms = Inr (map finish_group (dict_values G))"
    by (simp add: face_mode_photos_def G finish_photos_nonempty [OF ne])
  have "map photo_path (map finish_group (dict_values G)) = dict_keys G"
    using inG by (auto simp: dict_values_def dict_keys_def finish_group_def)
  then have di: "distinct (map photo_path (map finish_group (dict_values G)))"
    using gr by (simp add: grouped_def)
  have al: "list_all (\<lambda>g.
              group_similarities (photo_path g) ms \<noteq> [] \<and>
              map face_similarity (faces g) = group_similarities (photo_path g) ms \<and>
              num_matches g = Some (length (group_similarities (photo_path g) ms)) \<and>
              avg_similarity g =
                sum_list (group_similarities (photo_path g) ms) /
                  real (length (group_similarities (photo_path g) ms)) \<and>
              max_similarity g = Max (insert 0 (set (group_similarities (photo_path g) ms))))
            (map finish_group (dict_values G))"
    unfolding list_all_iff
  proof
    fix h assume "h \<in> set (map finish_group (dict_values G))"
    then obtain k g where kg: "(k, g) \<in> set G" and h: "h = finish_group g"
      by (auto simp: dict_values_def)
    from inG [OF kg] have l: "length (faces g) = length (group_similarities k ms)"
      by (metis length_map)
    from inG [OF kg] l show "group_similarities (photo_path h) ms \<noteq> [] \<and>
              map face_similarity (faces h) = group_similarities (photo_path h) ms \<and>
              num_matches h = Some (length (group_similarities (photo_path h) ms)) \<and>
              avg_similarity h =
                sum_list (group_similarities (photo_path h) ms) /
                  real (length (group_similarities (photo_path h) ms)) \<and>
              max_similarity h = Max (insert 0 (set (group_similarities (photo_path h) ms)))"
      by (simp add: h finish_group_def)
  qed
  from fm di al show ?thesis by blast
qed

lemma max_similarity_of_negative_group:
  assumes "xs \<noteq> []" and "\<forall>x\<in>set xs. x < (0::real)"
  shows "Max (insert 0 (set xs)) = 0" and "Max (set xs) < 0"
proof -
  show "Max (insert 0 (set xs)) = 0"
    using assms by (intro Max_eqI) (auto intro: less_imp_le)
  show "Max (set xs) < 0"
    using assms by simp
qed

lemma max_similarity_of_other_group:
  assumes "\<exists>x\<in>set xs. (0::real) \<le> x"
  shows "Max (insert 0 (set xs)) = Max (set xs)"
proof -
  from assms obtain x where x: "x \<in> set xs" "0 \<le> x" by blast
  then have "0 \<le> Max (set xs)"
    by (meson List.finite_set Max_ge order_trans)
  moreover have "set xs \<noteq> {}" using x by auto
  ultimately show ?thesis by (simp add: max_def)
qed

text \<open>
  C3, evaluated on the code. A photo with two faces at the squared distances \<open>5/2\<close> and \<open>4\<close>
  from the query, that is of similarities \<open>-1/4\<close> and \<open>-1\<close>, both at or above the threshold
  \<open>-1\<close>: the group's maximum starts at \<open>0.0\<close> and is raised only by a larger similarity, so
  \<open>max_similarity\<close> is \<open>0\<close> and not \<open>-1/4\<close>, with \<^verbatim>\<open>find_photos_by_embedding\<close> and with
  \<^verbatim>\<open>find_photos\<close> alike, while the average \<open>-5/8\<close> and the count \<open>2\<close> are those of the
  members.
\<close>

theorem negative_group_max_similarity:
  "find_photos_by_embedding
       (demo_env [[- (1 / 2), 1 / 2], [- 1, 0]] [face_meta 0 ''a.jpg'', face_meta 1 ''a.jpg''])
       (demo_manager [[- (1 / 2), 1 / 2], [- 1, 0]] [face_meta 0 ''a.jpg'', face_meta 1 ''a.jpg''])
       [1, 0] (- 1) 100 (Some ''Ann'') =
     (Inr \<lparr>success = True, message = Found_event_photos 1 (Some ''Ann''),
           query_info = Registered_person (Some ''Ann'') 2 (- 1),
           matches = [\<lparr>photo_path = ''a.jpg'',
                       faces = [\<lparr>face_bbox = [0, 0, 10, 10], face_similarity = - (1 / 4),
                                 face_det_score = 1\<rparr>,
                                \<lparr>face_bbox = [0, 0, 10, 10], face_similarity = - 1,
                                 face_det_score = 1\<rparr>],
                       photo_similarity = None, max_similarity = 0, avg_similarity = - (5 / 8),
                       num_matches = Some 2\<rparr>],
           total_photos = 1\<rparr>,
      [Index_search [1, 0] 100]) \<and>
   find_photos
       (demo_env [[- (1 / 2), 1 / 2], [- 1, 0]] [face_meta 0 ''a.jpg'', face_meta 1 ''a.jpg''])
       (demo_manager [[- (1 / 2), 1 / 2], [- 1, 0]] [face_meta 0 ''a.jpg'', face_meta 1 ''a.jpg''])
       (Some ''uploads/ann.jpg'') None (- 1) 100 =
     (Inr \<lparr>success = True, message = Found_photos 1,
           query_info = Face_query ''uploads/ann.jpg'' 2 (- 1),
           matches = [\<lparr>photo_path = ''a.jpg'',
                       faces = [\<lparr>face_bbox = [0, 0, 10, 10], face_similarity = - (1 / 4),
                                 face_det_score = 1\<rparr>,
                                \<lparr>face_bbox = [0, 0, 10, 10], face_similarity = - 1,
                                 face_det_score = 1\<rparr>],
                       photo_similarity = None, max_similarity = 0, avg_similarity = - (5 / 8),
                       num_matches = Some 2\<rparr>],
           total_photos = 1\<rparr>,
      [Detect_faces ''uploads/ann.jpg'', Index_search [1, 0] 100]) \<and>
   Max (set (group_similarities ''a.jpg''
          [\<lparr>face_id = 0, similarity = - (1 / 4), distance = 5 / 2,
             match_metadata = Some (face_meta 0 ''a.jpg'')\<rparr>,
           \<lparr>face_id = 1, similarity = - 1, distance = 4,
             match_metadata = Some (face_meta 1 ''a.jpg'')\<rparr>])) = - (1 / 4)"
proof -
  let ?ix = "[[- (1 / 2), 1 / 2], [- 1, 0]] :: faiss_index"
  let ?md = "[face_meta 0 ''a.jpg'', face_meta 1 ''a.jpg'']"
  have s: "search_with_threshold (demo_env ?ix ?md) (demo_manager ?ix ?md) [1, 0] (- 1) 100 =
      (Inr [\<lparr>face_id = 0, similarity = - (1 / 4), distance = 5 / 2,
              match_metadata = Some (face_meta 0 ''a.jpg'')\<rparr>,
            \<lparr>face_id = 1, similarity = - 1, distance = 4,
              match_metadata = Some (face_meta 1 ''a.jpg'')\<rparr>],
       [Index_search [1, 0] 100])"
    by (simp add: search_eval f32_eval)
  have g: "face_mode_photos
      [\<lparr>face_id = 0, similarity = - (1 / 4), distance = 5 / 2,
         match_metadata = Some (face_meta 0 ''a.jpg'')\<rparr>,
       \<lparr>face_id = 1, similarity = - 1, distance = 4,
         match_metadata = Some (face_meta 1 ''a.jpg'')\<rparr>] =
      Inr [\<lparr>photo_path = ''a.jpg'',
             faces = [\<lparr>face_bbox = [0, 0, 10, 10], face_similarity = - (1 / 4),
                       face_det_score = 1\<rparr>,
                      \<lparr>face_bbox = [0, 0, 10, 10], face_similarity = - 1,
                       face_det_score = 1\<rparr>],
             photo_similarity = None, max_similarity = 0, avg_similarity = - (5 / 8),
             num_matches = Some 2\<rparr>]"
    by (simp add: face_mode_photos_def add_match_def dict_keys_def dict_values_def
        face_meta_def Let_def)
  have i: "index (demo_manager ?ix ?md) = Some ?ix"
    and m: "index_mode (demo_manager ?ix ?md) = ''face''"
    by (simp_all add: demo_manager_def index_mode_def face_meta_def)
  have e: "single_face_embedding (demo_env ?ix ?md) ''uploads/ann.jpg'' = Inr (Some [1, 0])"
    by (simp add: demo_env_def)
  have 1: "find_photos_by_embedding (demo_env ?ix ?md) (demo_manager ?ix ?md)
       [1, 0] (- 1) 100 (Some ''Ann'') =
     (Inr \<lparr>success = True, message = Found_event_photos 1 (Some ''Ann''),
           query_info = Registered_person (Some ''Ann'') 2 (- 1),
           matches = [\<lparr>photo_path = ''a.jpg'',
                       faces = [\<lparr>face_bbox = [0, 0, 10, 10], face_similarity = - (1 / 4),
                                 face_det_score = 1\<rparr>,
                                \<lparr>face_bbox = [0, 0, 10, 10], face_similarity = - 1,
                                 face_det_score = 1\<rparr>],
                       photo_similarity = None, max_similarity = 0, avg_similarity = - (5 / 8),
                       num_matches = Some 2\<rparr>],
           total_photos = 1\<rparr>,
      [Index_search [1, 0] 100])"
    by (simp add: find_photos_by_embedding_def i s g sort_by_max_similarity_def
        initial_result_def)
  have 2: "find_photos (demo_env ?ix ?md) (demo_manager ?ix ?md)
       (Some ''uploads/ann.jpg'') None (- 1) 100 =
     (Inr \<lparr>success = True, message = Found_photos 1,
           query_info = Face_query ''uploads/ann.jpg'' 2 (- 1),
           matches = [\<lparr>photo_path = ''a.jpg'',
                       faces = [\<lparr>face_bbox = [0, 0, 10, 10], face_similarity = - (1 / 4),
                                 face_det_score = 1\<rparr>,
                                \<lparr>face_bbox = [0, 0, 10, 10], face_similarity = - 1,
                                 face_det_score = 1\<rparr>],
                       photo_similarity = None, max_similarity = 0, avg_similarity = - (5 / 8),
                       num_matches = Some 2\<rparr>],
           total_photos = 1\<rparr>,
      [Detect_faces ''uploads/ann.jpg'', Index_search [1, 0] 100])"
    by (simp add: find_photos_def truthy_def e m s g sort_by_max_similarity_def
        initial_result_def)
  have 3: "Max (set (group_similarities ''a.jpg''
          [\<lparr>face_id = 0, similarity = - (1 / 4), distance = 5 / 2,
             match_metadata = Some (face_meta 0 ''a.jpg'')\<rparr>,
           \<lparr>face_id = 1, similarity = - 1, distance = 4,
             match_metadata = Some (face_meta 1 ''a.jpg'')\<rparr>])) = - (1 / 4)"
    by (simp add: group_similarities_def match_path_def face_meta_def)
  from 1 2 3 show ?thesis by (intro conjI)
qed

subsection \<open>The profile store\<close>

lemma sort_snoc:
  "sort (xs @ [k]) = insort k (sort xs)"
  by (rule properties_for_sort) (simp_all add: sorted_insort)

lemma register_person_registered:
  assumes "register_person e pm name selfie = (Inr r, pm', calls)" and "registered r"
  obtains emb where "single_face_embedding e selfie = Inr (Some emb)"
    and "profiles pm' = dict_set (profiles pm) (strip name)
           \<lparr>profile_embedding = emb, profile_selfie_path = selfie\<rparr>"
    and "strip name \<noteq> []"
  using assms
  by (auto simp: register_person_def init_face_processor_def Let_def
      split: if_splits sum.splits option.splits prod.splits)

text \<open>
  C1, as the code has it. The store is keyed by the trimmed name as typed. A successful
  registration stores the new profile under that name, which is then listed exactly once;
  when the trimmed name equals a stored name exactly, the list of names is unchanged (the
  profile is overwritten); when it equals none, if only because its casing differs, the
  name is added to the list; every other name keeps its profile.
\<close>

theorem register_person_exact_name:
  assumes "distinct (dict_keys (profiles pm))"
    and "register_person e pm name selfie = (Inr r, pm', calls)" and "registered r"
  shows "(\<exists>emb. single_face_embedding e selfie = Inr (Some emb) \<and>
            map_of (profiles pm') (strip name) =
              Some \<lparr>profile_embedding = emb, profile_selfie_path = selfie\<rparr>) \<and>
         count_list (get_all_names pm') (strip name) = 1 \<and>
         (strip name \<in> set (get_all_names pm) \<longrightarrow> get_all_names pm' = get_all_names pm) \<and>
         (strip name \<notin> set (get_all_names pm) \<longrightarrow>
            get_all_names pm' = insort (strip name) (get_all_names pm)) \<and>
         (\<forall>n. n \<noteq> strip name \<longrightarrow> map_of (profiles pm') n = map_of (profiles pm) n)"
proof -
  from assms(2,3) obtain emb where emb: "single_face_embedding e selfie = Inr (Some emb)"
    and p: "profiles pm' = dict_set (profiles pm) (strip name)
              \<lparr>profile_embedding = emb, profile_selfie_path = selfie\<rparr>"
    by (rule register_person_registered)
  have 1: "map_of (profiles pm') (strip name) =
             Some \<lparr>profile_embedding = emb, profile_selfie_path = selfie\<rparr>"
    by (simp add: p map_of_dict_set)
  have d: "distinct (dict_keys (profiles pm'))"
    unfolding p using assms(1) by (rule distinct_dict_set)
  have m: "strip name \<in> set (dict_keys (profiles pm'))"
    by (simp add: p dict_keys_dict_set)
  have "count_list (get_all_names pm') (strip name) = count (mset (get_all_names pm')) (strip name)"
    by (simp add: count_mset)
  also have "\<dots> = count (mset (dict_keys (profiles pm'))) (strip name)"
    by (simp add: get_all_names_def)
  also have "\<dots> = 1"
    using d m by (simp add: distinct_count_atmost_1)
  finally have 2: "count_list (get_all_names pm') (strip name) = 1" .
  have 3: "get_all_names pm' = get_all_names pm" if "strip name \<in> set (get_all_names pm)"
    using that by (simp add: get_all_names_def p dict_keys_dict_set)
  have 4: "get_all_names pm' = insort (strip name) (get_all_names pm)"
    if "strip name \<notin> set (get_all_names pm)"
    using that by (simp add: get_all_names_def p dict_keys_dict_set sort_snoc)
  have 5: "map_of (profiles pm') n = map_of (profiles pm) n" if "n \<noteq> strip name" for n
    using that by (simp add: p map_of_dict_set)
  from emb 1 2 3 4 5 show ?thesis by blast
qed


theorem register_person_exact_name_witness:
  "distinct (dict_keys (profiles
      \<lparr>profiles_path = ''data/embeddings/person_profiles.json'',
       profiles = [(''Ann'', \<lparr>profile_embedding = [1, 0], profile_selfie_path = ''uploads/ann.jpg''\<rparr>)],
       face_processor = True\<rparr>)) \<and>
   register_person (demo_env [] [])
      \<lparr>profiles_path = ''data/embeddings/person_profiles.json'',
       profiles = [(''Ann'', \<lparr>profile_embedding = [1, 0], profile_selfie_path = ''uploads/ann.jpg''\<rparr>)],
       face_processor = True\<rparr> '' Ann '' ''uploads/ann2.jpg'' =
     (Inr \<lparr>registered = True, register_message = Successfully_registered ''Ann''\<rparr>,
      \<lparr>profiles_path = ''data/embeddings/person_profiles.json'',
       profiles = [(''Ann'', \<lparr>profile_embedding = [1, 0], profile_selfie_path = ''uploads/ann2.jpg''\<rparr>)],
       face_processor = True\<rparr>,
      [Detect_faces ''uploads/ann2.jpg'', Makedirs ''data/embeddings'',
       Write_profiles ''data/embeddings/person_profiles.json''
         [(''Ann'', \<lparr>profile_embedding = [1, 0], profile_selfie_path = ''uploads/ann2.jpg''\<rparr>)]]) \<and>
   registered \<lparr>registered = True, register_message = Successfully_registered ''Ann''\<rparr> \<and>
   strip '' Ann '' = ''Ann'' \<and>
   count_list (get_all_names
      \<lparr>profiles_path = ''data/embeddings/person_profiles.json'',
       profiles = [(''Ann'', \<lparr>profile_embedding = [1, 0], profile_selfie_path = ''uploads/ann2.jpg''\<rparr>)],
       face_processor = True\<rparr>) ''Ann'' = 1 \<and>
   get_all_names
      \<lparr>profiles_path = ''data/embeddings/person_profiles.json'',
       profiles = [(''Ann'', \<lparr>profile_embedding = [1, 0], profile_selfie_path = ''uploads/ann2.jpg''\<rparr>)],
       face_processor = True\<rparr> =
   get_all_names
      \<lparr>profiles_path = ''data/embeddings/person_profiles.json'',
       profiles = [(''Ann'', \<lparr>profile_embedding = [1, 0], profile_selfie_path = ''uploads/ann.jpg''\<rparr>)],
       face_processor = True\<rparr>"
proof -
  let ?pm = "\<lparr>profiles_path = ''data/embeddings/person_profiles.json'',
       profiles = [(''Ann'', \<lparr>profile_embedding = [1, 0], profile_selfie_path = ''uploads/ann.jpg''\<rparr>)],
       face_processor = True\<rparr>"
  let ?pm' = "\<lparr>profiles_path = ''data/embeddings/person_profiles.json'',
       profiles = [(''Ann'', \<lparr>profile_embedding = [1, 0], profile_selfie_path = ''uploads/ann2.jpg''\<rparr>)],
       face_processor = True\<rparr>"
  let ?r = "\<lparr>registered = True, register_message = Successfully_registered ''Ann''\<rparr>"
  have s: "strip '' Ann '' = ''Ann''"
    by (simp add: strip_def is_space_def)
  have h1: "distinct (dict_keys (profiles ?pm))"
    by (simp add: dict_keys_def)
  have h2: "register_person (demo_env [] []) ?pm '' Ann '' ''uploads/ann2.jpg'' =
     (Inr ?r, ?pm',
      [Detect_faces ''uploads/ann2.jpg'', Makedirs ''data/embeddings'',
       Write_profiles ''data/embeddings/person_profiles.json''
         [(''Ann'', \<lparr>profile_embedding = [1, 0], profile_selfie_path = ''uploads/ann2.jpg''\<rparr>)]])"
    by (simp add: register_person_def demo_env_def strip_def is_space_def
        init_face_processor_def save_profiles_def posix_dirname_def Let_def)
  have h3: "registered ?r" by simp
  have mem: "strip '' Ann '' \<in> set (get_all_names ?pm)"
    by (simp add: s get_all_names_def dict_keys_def)
  from register_person_exact_name [OF h1 h2 h3] mem
  have "count_list (get_all_names ?pm') (strip '' Ann '') = 1"
    and "get_all_names ?pm' = get_all_names ?pm"
    by blast+
  then show ?thesis using h1 h2 h3 s by simp
qed

text \<open>
  C1 as stated fails: after \<open>Ann\<close> and then \<open>ann\<close> have been registered, both successfully,
  the store lists two names, and the lookup of \<open>ann\<close> still answers with the entry \<open>Ann\<close>.
\<close>

theorem register_other_case_counterexample:
  "lower ''Ann'' = lower ''ann'' \<and>
   fst (register_person (demo_env [] []) demo_people ''Ann'' ''uploads/ann.jpg'') =
     Inr \<lparr>registered = True, register_message = Successfully_registered ''Ann''\<rparr> \<and>
   fst (register_person (demo_env [] [])
          (fst (snd (register_person (demo_env [] []) demo_people ''Ann'' ''uploads/ann.jpg'')))
          ''ann'' ''uploads/ann2.jpg'') =
     Inr \<lparr>registered = True, register_message = Successfully_registered ''ann''\<rparr> \<and>
   get_all_names
     (fst (snd (register_person (demo_env [] [])
                  (fst (snd (register_person (demo_env [] []) demo_people ''Ann'' ''uploads/ann.jpg'')))
                  ''ann'' ''uploads/ann2.jpg''))) = [''Ann'', ''ann''] \<and>
   get_profile
     (fst (snd (register_person (demo_env [] [])
                  (fst (snd (register_person (demo_env [] []) demo_people ''Ann'' ''uploads/ann.jpg'')))
                  ''ann'' ''uploads/ann2.jpg''))) ''ann'' =
     Some (''Ann'', \<lparr>profile_embedding = [1, 0], profile_selfie_path = ''uploads/ann.jpg''\<rparr>)"
proof -
  have l: "lower ''Ann'' = lower ''ann''"
    by code_simp
  have r1: "register_person (demo_env [] []) demo_people ''Ann'' ''uploads/ann.jpg'' =
      (Inr \<lparr>registered = True, register_message = Successfully_registered ''Ann''\<rparr>,
       \<lparr>profiles_path = ''data/embeddings/person_profiles.json'',
        profiles = [(''Ann'', \<lparr>profile_embedding = [1, 0], profile_selfie_path = ''uploads/ann.jpg''\<rparr>)],
        face_processor = True\<rparr>,
       [Load_models, Detect_faces ''uploads/ann.jpg'', Makedirs ''data/embeddings'',
        Write_profiles ''data/embeddings/person_profiles.json''
          [(''Ann'', \<lparr>profile_embedding = [1, 0], profile_selfie_path = ''uploads/ann.jpg''\<rparr>)]])"
    by (simp add: register_person_def demo_env_def demo_people_def strip_def is_space_def
        init_face_processor_def save_profiles_def posix_dirname_def Let_def)
  have r2: "register_person (demo_env [] [])
       \<lparr>profiles_path = ''data/embeddings/person_profiles.json'',
        profiles = [(''Ann'', \<lparr>profile_embedding = [1, 0], profile_selfie_path = ''uploads/ann.jpg''\<rparr>)],
        face_processor = True\<rparr> ''ann'' ''uploads/ann2.jpg'' =
      (Inr \<lparr>registered = True, register_message = Successfully_registered ''ann''\<rparr>,
       \<lparr>profiles_path = ''data/embeddings/person_profiles.json'',
        profiles = [(''Ann'', \<lparr>profile_embedding = [1, 0], profile_selfie_path = ''uploads/ann.jpg''\<rparr>),
                    (''ann'', \<lparr>profile_embedding = [1, 0], profile_selfie_path = ''uploads/ann2.jpg''\<rparr>)],
        face_processor = True\<rparr>,
       [Detect_faces ''uploads/ann2.jpg'', Makedirs ''data/embeddings'',
        Write_profiles ''data/embeddings/person_profiles.json''
          [(''Ann'', \<lparr>profile_embedding = [1, 0], profile_selfie_path = ''uploads/ann.jpg''\<rparr>),
           (''ann'', \<lparr>profile_embedding = [1, 0], profile_selfie_path = ''uploads/ann2.jpg''\<rparr>)]])"
    by (simp add: register_person_def demo_env_def strip_def is_space_def
        init_face_processor_def save_profiles_def posix_dirname_def Let_def)
  have g: "get_all_names \<lparr>profiles_path = ''data/embeddings/person_profiles.json'',
        profiles = [(''Ann'', \<lparr>profile_embedding = [1, 0], profile_selfie_path = ''uploads/ann.jpg''\<rparr>),
                    (''ann'', \<lparr>profile_embedding = [1, 0], profile_selfie_path = ''uploads/ann2.jpg''\<rparr>)],
        face_processor = True\<rparr> = [''Ann'', ''ann'']"
    by (simp add: get_all_names_def dict_keys_def less_eq_char_def less_char_def)
  have p: "get_profile \<lparr>profiles_path = ''data/embeddings/person_profiles.json'',
        profiles = [(''Ann'', \<lparr>profile_embedding = [1, 0], profile_selfie_path = ''uploads/ann.jpg''\<rparr>),
                    (''ann'', \<lparr>profile_embedding = [1, 0], profile_selfie_path = ''uploads/ann2.jpg''\<rparr>)],
        face_processor = True\<rparr> ''ann'' =
      Some (''Ann'', \<lparr>profile_embedding = [1, 0], profile_selfie_path = ''uploads/ann.jpg''\<rparr>)"
    by (simp add: get_profile_def l)
  show ?thesis
    by (simp only: l r1 r2 g p fst_conv snd_conv simp_thms)
qed



end
